theory Spec2Isabelle
  imports Main "HOL-Library.Word"
begin

section \<open>Strings\<close>

text \<open>
  A JavaScript string is a sequence of UTF-16 code units; \<open>length\<close>, \<open>substring\<close> and the
  regular expressions of \<^verbatim>\<open>action.ts\<close> (none has the \<^verbatim>\<open>u\<close> flag) all count and match code
  units. Issue bodies are therefore lists of 16-bit words. Identifiers, titles and log
  texts are only copied around by the code and are kept as \<open>string\<close>.
\<close>

type_synonym jschar = "16 word"

type_synonym jsstr = "jschar list"

definition js :: "string \<Rightarrow> jsstr" where
  "js s = map of_char s"

abbreviation ch_nl :: jschar where "ch_nl \<equiv> 0x0A"

abbreviation ch_bang :: jschar where "ch_bang \<equiv> 0x21"

abbreviation ch_hash :: jschar where "ch_hash \<equiv> 0x23"

abbreviation ch_lparen :: jschar where "ch_lparen \<equiv> 0x28"

abbreviation ch_rparen :: jschar where "ch_rparen \<equiv> 0x29"

abbreviation ch_star :: jschar where "ch_star \<equiv> 0x2A"

abbreviation ch_lt :: jschar where "ch_lt \<equiv> 0x3C"

abbreviation ch_gt :: jschar where "ch_gt \<equiv> 0x3E"

abbreviation ch_lbracket :: jschar where "ch_lbracket \<equiv> 0x5B"

abbreviation ch_rbracket :: jschar where "ch_rbracket \<equiv> 0x5D"

text \<open>The ECMAScript LineTerminator code units: LF, CR, LS, PS. The regex atom \<^verbatim>\<open>.\<close>
  matches every code unit but these, and with the \<^verbatim>\<open>m\<close> flag \<^verbatim>\<open>^\<close> and \<^verbatim>\<open>$\<close> match next to them.\<close>

definition isLineTerminator :: "jschar \<Rightarrow> bool" where
  "isLineTerminator c \<longleftrightarrow> c = 0x0A \<or> c = 0x0D \<or> c = 0x2028 \<or> c = 0x2029"

text \<open>The class \<^verbatim>\<open>\s\<close>, which is also what \<^verbatim>\<open>String.prototype.trim\<close> removes: WhiteSpace
  and LineTerminator.\<close>

definition isSpace :: "jschar \<Rightarrow> bool" where
  "isSpace c \<longleftrightarrow>
     c = 0x09 \<or> c = 0x0A \<or> c = 0x0B \<or> c = 0x0C \<or> c = 0x0D \<or> c = 0x20 \<or> c = 0xA0 \<or>
     c = 0x1680 \<or> (0x2000 \<le> c \<and> c \<le> 0x200A) \<or> c = 0x2028 \<or> c = 0x2029 \<or>
     c = 0x202F \<or> c = 0x205F \<or> c = 0x3000 \<or> c = 0xFEFF"

subsection \<open>removeHTML (action.ts, lines 12-19)\<close>

text \<open>\<^verbatim>\<open>text.replace(/<[^>]+>/g, '')\<close>: at a \<^verbatim>\<open><\<close> the greedy class takes every code unit up
  to the next \<^verbatim>\<open>>\<close>; the match needs at least one such unit and the closing \<^verbatim>\<open>>\<close>. A shorter
  run is followed by a unit that is not \<^verbatim>\<open>>\<close>, so backtracking never finds another match.\<close>

function stripTags :: "jsstr \<Rightarrow> jsstr" where
  "stripTags [] = []"
| "stripTags (c # cs) =
     (if c = ch_lt \<and> takeWhile (\<lambda>x. x \<noteq> ch_gt) cs \<noteq> [] \<and> dropWhile (\<lambda>x. x \<noteq> ch_gt) cs \<noteq> []
      then stripTags (tl (dropWhile (\<lambda>x. x \<noteq> ch_gt) cs))
      else c # stripTags cs)"
  by pat_completeness auto
termination
proof (relation "measure length")
  fix c :: jschar and cs :: jsstr
  have "length (dropWhile (\<lambda>x. x \<noteq> ch_gt) cs) \<le> length cs"
    by (rule length_dropWhile_le)
  then show "(tl (dropWhile (\<lambda>x. x \<noteq> ch_gt) cs), c # cs) \<in> measure length"
    by simp
qed simp_all

text \<open>\<^verbatim>\<open>.replace(/\n\s*\n/g, '\n')\<close>: at a newline, \<^verbatim>\<open>\s*\<close> takes the whole run of white space
  that follows and backtracks to the last newline inside that run (the unit after the run
  is not white space, hence no newline). The match, up to and including that newline, is
  replaced by one newline and the scan goes on behind it.\<close>

function collapseBlankLines :: "jsstr \<Rightarrow> jsstr" where
  "collapseBlankLines [] = []"
| "collapseBlankLines (c # cs) =
     (let ws = takeWhile isSpace cs in
      if c = ch_nl \<and> ch_nl \<in> set ws
      then ch_nl # collapseBlankLines
             (drop (length ws - length (takeWhile (\<lambda>x. x \<noteq> ch_nl) (rev ws))) cs)
      else c # collapseBlankLines cs)"
  by pat_completeness auto
termination
  by (relation "measure length") simp_all

definition trim :: "jsstr \<Rightarrow> jsstr" where
  "trim s = rev (dropWhile isSpace (rev (dropWhile isSpace s)))"

text \<open>The parameter is optional in the source (\<^verbatim>\<open>text?: string\<close>) and the issue body of a
  payload may be \<^verbatim>\<open>null\<close>: \<open>None\<close> is the missing body, and \<^verbatim>\<open>!text\<close> also holds of the empty
  string.\<close>

definition removeHTML :: "jsstr option \<Rightarrow> jsstr" where
  "removeHTML text =
     (case text of
        None \<Rightarrow> []
      | Some t \<Rightarrow> if t = [] then [] else trim (collapseBlankLines (stripTags t)))"

subsection \<open>preprocessMarkdown (action.ts, lines 21-32)\<close>

definition startsWith :: "jsstr \<Rightarrow> jsstr \<Rightarrow> bool" where
  "startsWith pat s \<longleftrightarrow> take (length pat) s = pat"

fun afterFirst :: "jsstr \<Rightarrow> jsstr \<Rightarrow> jsstr option" where
  "afterFirst pat [] = (if pat = [] then Some [] else None)"
| "afterFirst pat (c # cs) =
     (if startsWith pat (c # cs) then Some (drop (length pat) (c # cs)) else afterFirst pat cs)"

lemma afterFirst_length: "afterFirst pat s = Some r \<Longrightarrow> length r \<le> length s"
  by (induction s) (auto split: if_splits)

text \<open>\<^verbatim>\<open>text.replace(/<!--[\s\S]*?-->/g, '')\<close>: the lazy class stops at the first \<^verbatim>\<open>-->\<close> behind
  the opening \<^verbatim>\<open><!--\<close>.\<close>

function removeComments :: "jsstr \<Rightarrow> jsstr" where
  "removeComments [] = []"
| "removeComments (c # cs) =
     (if startsWith (js ''<!--'') (c # cs)
      then (case afterFirst (js ''-->'') (drop 3 cs) of
              Some rest \<Rightarrow> removeComments rest
            | None \<Rightarrow> c # removeComments cs)
      else c # removeComments cs)"
  by pat_completeness auto
termination
proof (relation "measure length")
  fix c :: jschar and cs rest :: jsstr
  assume "afterFirst (js ''-->'') (drop 3 cs) = Some rest"
  then have "length rest \<le> length (drop 3 cs)"
    by (rule afterFirst_length)
  then show "(rest, c # cs) \<in> measure length"
    by simp
qed simp_all

text \<open>One match of \<^verbatim>\<open>/^#+\s+(.+)$/m\<close> at a line start: the captured group and the text behind
  the match. \<^verbatim>\<open>#+\<close> takes the whole run of \<^verbatim>\<open>#\<close>, \<^verbatim>\<open>\s+\<close> the whole run of white space (line
  terminators included) behind it. If a code unit follows, it is no white space, so \<^verbatim>\<open>.+\<close>
  runs from it to the end of its line. If the white space reaches the end of the input,
  \<^verbatim>\<open>\s+\<close> backtracks to the last of its units, the first excepted, that is no line
  terminator; the group is that one unit.\<close>

definition matchHeading :: "jsstr \<Rightarrow> (jsstr \<times> jsstr) option" where
  "matchHeading s =
     (let hs = takeWhile (\<lambda>x. x = ch_hash) s;
          r1 = dropWhile (\<lambda>x. x = ch_hash) s;
          ws = takeWhile isSpace r1;
          r2 = dropWhile isSpace r1
      in if hs = [] \<or> ws = [] then None
         else if r2 \<noteq> []
         then Some (takeWhile (\<lambda>x. \<not> isLineTerminator x) r2,
                    dropWhile (\<lambda>x. \<not> isLineTerminator x) r2)
         else (case dropWhile isLineTerminator (rev (tl ws)) of
                 [] \<Rightarrow> None
               | g # _ \<Rightarrow> Some ([g], rev (takeWhile isLineTerminator (rev (tl ws))))))"

lemma length_dropWhile_less:
  "takeWhile P s \<noteq> [] \<Longrightarrow> length (dropWhile P s) < length s"
  by (cases s) (auto simp: le_imp_less_Suc length_dropWhile_le split: if_splits)

lemma matchHeading_length:
  assumes "matchHeading s = Some (g, rest)"
  shows "length rest < length s"
proof -
  let ?r1 = "dropWhile (\<lambda>x. x = ch_hash) s"
  let ?ws = "takeWhile isSpace ?r1"
  let ?r2 = "dropWhile isSpace ?r1"
  from assms have hs: "takeWhile (\<lambda>x. x = ch_hash) s \<noteq> []" and ws: "?ws \<noteq> []"
    by (auto simp: matchHeading_def Let_def split: if_splits)
  have l1: "length ?r1 < length s"
    using hs by (rule length_dropWhile_less)
  show ?thesis
  proof (cases "?r2 = []")
    case False
    with assms hs ws have "rest = dropWhile (\<lambda>x. \<not> isLineTerminator x) ?r2"
      by (simp add: matchHeading_def Let_def)
    then have "length rest \<le> length ?r2"
      by (simp add: length_dropWhile_le)
    also have "\<dots> \<le> length ?r1"
      by (rule length_dropWhile_le)
    finally show ?thesis using l1 by simp
  next
    case True
    with assms hs ws have "rest = rev (takeWhile isLineTerminator (rev (tl ?ws)))"
      by (auto simp: matchHeading_def Let_def split: list.splits)
    moreover have "length (takeWhile isLineTerminator (rev (tl ?ws))) \<le> length (rev (tl ?ws))"
      by (rule length_takeWhile_le)
    ultimately have "length rest \<le> length ?ws"
      by simp
    also have "\<dots> \<le> length ?r1"
      by (rule length_takeWhile_le)
    finally show ?thesis using l1 by simp
  qed
qed

text \<open>\<^verbatim>\<open>text.replace(/^#+\s+(.+)$/gm, '**$1**')\<close>. The flag \<open>bol\<close> says that the scan is at the
  start of the input or behind a line terminator, where \<^verbatim>\<open>^\<close> matches. A match ends behind
  a unit that is no line terminator, so the scan goes on with the flag down.\<close>

function headingsToBold :: "bool \<Rightarrow> jsstr \<Rightarrow> jsstr" where
  "headingsToBold bol [] = []"
| "headingsToBold bol (c # cs) =
     (case (if bol then matchHeading (c # cs) else None) of
        Some (grp, rest) \<Rightarrow> js ''**'' @ grp @ js ''**'' @ headingsToBold False rest
      | None \<Rightarrow> c # headingsToBold (isLineTerminator c) cs)"
  by pat_completeness auto
termination
proof (relation "measure (\<lambda>(bol, s). length s)")
  fix bol :: bool and c :: jschar and cs grp rest :: jsstr and x :: "jsstr \<times> jsstr"
  assume "(if bol then matchHeading (c # cs) else None) = Some x" and "(grp, rest) = x"
  then have "matchHeading (c # cs) = Some (grp, rest)"
    by (simp split: if_splits)
  then have "length rest < length (c # cs)"
    by (rule matchHeading_length)
  then show "((False, rest), (bol, c # cs)) \<in> measure (\<lambda>(bol, s). length s)"
    by simp
qed simp_all

text \<open>Whether the scan of \<^verbatim>\<open>headingsToBold\<close> over a text ends inside a heading marker that
  has no text yet: a run of \<^verbatim>\<open>#\<close> at a line start that the scan reaches, with nothing but
  white space behind it. Such a marker takes what follows the text as its heading text.\<close>

function markerOpen :: "bool \<Rightarrow> jsstr \<Rightarrow> bool" where
  "markerOpen bol [] = False"
| "markerOpen bol (c # cs) =
     (if bol \<and> c = ch_hash \<and> dropWhile isSpace (dropWhile (\<lambda>x. x = ch_hash) (c # cs)) = []
      then True
      else (case (if bol then matchHeading (c # cs) else None) of
              Some (grp, rest) \<Rightarrow> markerOpen False rest
            | None \<Rightarrow> markerOpen (isLineTerminator c) cs))"
  by pat_completeness auto
termination
proof (relation "measure (\<lambda>(bol, s). length s)")
  fix bol :: bool and c :: jschar and cs grp rest :: jsstr and x :: "jsstr \<times> jsstr"
  assume "(if bol then matchHeading (c # cs) else None) = Some x" and "(grp, rest) = x"
  then have "matchHeading (c # cs) = Some (grp, rest)"
    by (simp split: if_splits)
  then have "length rest < length (c # cs)"
    by (rule matchHeading_length)
  then show "((False, rest), (bol, c # cs)) \<in> measure (\<lambda>(bol, s). length s)"
    by simp
qed simp_all

text \<open>White space apart, the text ends with \<^verbatim>\<open>#\<close>.\<close>

definition endsWithHash :: "jsstr \<Rightarrow> bool" where
  "endsWithHash s = (case dropWhile isSpace (rev s) of [] \<Rightarrow> False | x # _ \<Rightarrow> x = ch_hash)"

text \<open>One match of \<^verbatim>\<open>/!\[([^\]]*)\]\([^)]*\)/\<close> at the head of the text: the alt text and the
  text behind the match.\<close>

definition matchImage :: "jsstr \<Rightarrow> (jsstr \<times> jsstr) option" where
  "matchImage s =
     (case s of
        b # l # r1 \<Rightarrow>
          if b = ch_bang \<and> l = ch_lbracket
          then (case dropWhile (\<lambda>x. x \<noteq> ch_rbracket) r1 of
                  rb # lp # r3 \<Rightarrow>
                    if lp = ch_lparen
                    then (case dropWhile (\<lambda>x. x \<noteq> ch_rparen) r3 of
                            [] \<Rightarrow> None
                          | rp # r5 \<Rightarrow> Some (takeWhile (\<lambda>x. x \<noteq> ch_rbracket) r1, r5))
                    else None
                | _ \<Rightarrow> None)
          else None
      | _ \<Rightarrow> None)"

lemma matchImage_length:
  assumes "matchImage s = Some (alt, rest)"
  shows "length rest < length s"
proof -
  from assms obtain b l r1 rb lp r3 rp where
    s: "s = b # l # r1" and
    r2: "dropWhile (\<lambda>x. x \<noteq> ch_rbracket) r1 = rb # lp # r3" and
    r4: "dropWhile (\<lambda>x. x \<noteq> ch_rparen) r3 = rp # rest"
    by (auto simp: matchImage_def split: list.splits if_splits)
  have "length (rp # rest) \<le> length r3"
    unfolding r4 [symmetric] by (rule length_dropWhile_le)
  moreover have "length (rb # lp # r3) \<le> length r1"
    unfolding r2 [symmetric] by (rule length_dropWhile_le)
  ultimately show ?thesis using s by simp
qed

text \<open>\<^verbatim>\<open>text.replace(/!\[([^\]]*)\]\([^)]*\)/g, '$1 (image)')\<close>.\<close>

function replaceImages :: "jsstr \<Rightarrow> jsstr" where
  "replaceImages [] = []"
| "replaceImages (c # cs) =
     (case matchImage (c # cs) of
        Some (alt, rest) \<Rightarrow> alt @ js '' (image)'' @ replaceImages rest
      | None \<Rightarrow> c # replaceImages cs)"
  by pat_completeness auto
termination
proof (relation "measure length")
  fix c :: jschar and cs alt rest :: jsstr and x :: "jsstr \<times> jsstr"
  assume "matchImage (c # cs) = Some x" and "(alt, rest) = x"
  then have "length rest < length (c # cs)"
    by (metis matchImage_length)
  then show "(rest, c # cs) \<in> measure length"
    by simp
qed simp_all

definition preprocessMarkdown :: "jsstr \<Rightarrow> jsstr" where
  "preprocessMarkdown text = replaceImages (headingsToBold True (removeComments text))"

section \<open>Data model\<close>

text \<open>A thrown JavaScript value: an \<^verbatim>\<open>Error\<close> object with its name and message, or any other
  value, kept as the text \<^verbatim>\<open>String(value)\<close> gives.\<close>

datatype thrown = ErrorObj string string | ThrownValue string

text \<open>\<^verbatim>\<open>error instanceof Error ? error.message : String(error)\<close>\<close>

fun errorMessage :: "thrown \<Rightarrow> string" where
  "errorMessage (ErrorObj name msg) = msg"
| "errorMessage (ThrownValue v) = v"

text \<open>\<^verbatim>\<open>String(reason)\<close>, for an error object \<^verbatim>\<open>Error.prototype.toString\<close>.\<close>

fun String_of :: "thrown \<Rightarrow> string" where
  "String_of (ErrorObj name msg) =
     (if name = [] then msg else if msg = [] then name else name @ '': '' @ msg)"
| "String_of (ThrownValue v) = v"

text \<open>\<^verbatim>\<open>new Error(msg)\<close>, and the \<^verbatim>\<open>TypeError\<close> of reading a property of \<^verbatim>\<open>undefined\<close> (the
  wording of the message is the engine's).\<close>

definition new_Error :: "string \<Rightarrow> thrown" where
  "new_Error msg = ErrorObj ''Error'' msg"

definition TypeError_undefined :: "string \<Rightarrow> thrown" where
  "TypeError_undefined prop =
     ErrorObj ''TypeError'' (''Cannot read properties of undefined (reading '' @ prop @ '')'')"

record annotations =
  bold :: bool
  strikethrough :: bool
  underline :: bool
  italic :: bool
  code :: bool
  color :: string

record rich_text =
  rt_type :: string
  content :: jsstr
  link :: "string option"
  annotations :: annotations

text \<open>Modelled from the spec: the helpers \<^verbatim>\<open>properties.title\<close>, \<^verbatim>\<open>properties.text\<close>,
  \<^verbatim>\<open>properties.richText\<close>, \<^verbatim>\<open>properties.number\<close>, \<^verbatim>\<open>properties.url\<close>, \<^verbatim>\<open>properties.date\<close>,
  \<^verbatim>\<open>properties.getStatusSelectOption\<close> and \<^verbatim>\<open>properties.multiSelect\<close> of \<^verbatim>\<open>./properties\<close>,
  which is not among the sources. The spec has PropertyValue as a tagged union; each
  constructor stands for the call of one helper on its argument. An argument that the
  source may leave \<^verbatim>\<open>undefined\<close> is an option.\<close>

datatype property_value =
    Title string
  | Text "string option"
  | RichText "rich_text list"
  | Number int
  | Url string
  | Date string
  | StatusSelectOption string
  | MultiSelect "string list"

text \<open>\<^verbatim>\<open>CustomValueMap\<close>: an object literal, kept as the list of its keys and values in the
  order written.\<close>

type_synonym props = "(string \<times> property_value) list"

datatype block = Paragraph "rich_text list"

record block_object =
  block_id :: string
  block_content :: block

record issue =
  number :: int
  issue_id :: int
  title :: string
  state :: string
  body :: "jsstr option"
  assignees :: "string list"
  labels :: "string list option"
  milestone :: "string option"
  created_at :: string
  updated_at :: string
  repository_url :: string
  user :: "string option"
  html_url :: string
  pull_request :: bool

record payload =
  action :: "string option"
  payload_issue :: "issue option"
  repository_full_name :: "string option"

record options =
  notion_token :: string
  notion_databaseId :: "string option"
  github_payload :: payload
  github_eventName :: string
  github_token :: string

text \<open>What reading \<^verbatim>\<open>.number\<close> of a ledger property object yields: nothing for a property
  of another type, \<^verbatim>\<open>null\<close> for a number property without a value, or the number.\<close>

datatype number_field = NumUndefined | NumNull | NumValue int

datatype property_object = NumberProperty "int option" | OtherProperty

fun number_of :: "property_object \<Rightarrow> number_field" where
  "number_of (NumberProperty None) = NumNull"
| "number_of (NumberProperty (Some n)) = NumValue n"
| "number_of OtherProperty = NumUndefined"

text \<open>An entry of a query response. A partial page object has no \<^verbatim>\<open>properties\<close> key.\<close>

record page =
  page_id :: string
  page_properties :: "(string \<times> property_object) list option"

record query_response =
  results :: "page list"
  next_cursor :: "string option"

record query_params =
  database_id :: string
  start_cursor :: "string option"
  filter_ID_equals :: "int option"
  page_size :: "nat option"

record create_params =
  parent_database_id :: string
  properties :: props
  children :: "block list option"

record project_data =
  name :: "string option"
  columnName :: "string option"

text \<open>The fields \<^verbatim>\<open>pageId\<close> and \<^verbatim>\<open>issueNumber\<close>.\<close>

record PageIdAndIssueNumber =
  pin_pageId :: string
  pin_issueNumber :: number_field

text \<open>\<^verbatim>\<open>Map<number, string>\<close>. A key is whatever \<^verbatim>\<open>issueNumber\<close> holds at run time.\<close>

type_synonym issue_mapping = "number_field \<rightharpoonup> string"

section \<open>Effects\<close>

text \<open>The pieces of a template literal: text and interpolated numbers.\<close>

datatype piece = S string | N int

datatype level = Debug | Info | Warning | Error

datatype call =
    DatabasesQuery query_params
  | PagesCreate create_params
  | PagesUpdate string props
  | BlocksChildrenList string
  | BlocksUpdate string block
  | BlocksChildrenAppend string "block list"
  | BlocksDelete string
  | IssuesListForRepo string "string option"
  | GetProjectData string int

datatype event = Log level "piece list" | Call call

text \<open>An asynchronous computation ends with a value, ends with a thrown value, or does not
  end (the pagination loop has no bound; the model runs it on fuel). Beside its result it
  yields the log lines it wrote and the remote calls it issued, in order.\<close>

datatype 'a result = Ok 'a | Throws thrown | Diverges

type_synonym 'a io = "'a result \<times> event list"

definition io_return :: "'a \<Rightarrow> 'a io" where
  "io_return x = (Ok x, [])"

definition io_throw :: "thrown \<Rightarrow> 'a io" where
  "io_throw e = (Throws e, [])"

definition io_bind :: "'a io \<Rightarrow> ('a \<Rightarrow> 'b io) \<Rightarrow> 'b io" where
  "io_bind m f =
     (case m of
        (Ok x, t) \<Rightarrow> (case f x of (r, t') \<Rightarrow> (r, t @ t'))
      | (Throws e, t) \<Rightarrow> (Throws e, t)
      | (Diverges, t) \<Rightarrow> (Diverges, t))"

text \<open>\<^verbatim>\<open>try { m } catch (error) { h error }\<close>\<close>

definition try_catch :: "'a io \<Rightarrow> (thrown \<Rightarrow> 'a io) \<Rightarrow> 'a io" where
  "try_catch m h =
     (case m of
        (Throws e, t) \<Rightarrow> (case h e of (r, t') \<Rightarrow> (r, t @ t'))
      | (r, t) \<Rightarrow> (r, t))"

definition core_log :: "level \<Rightarrow> piece list \<Rightarrow> unit io" where
  "core_log l msg = (Ok (), [Log l msg])"

text \<open>The external collaborators: the markdown parser of \<^verbatim>\<open>@tryfabric/martian\<close>, the ledger
  client, the source client (its paginating iterator yields the pages of one listing),
  and \<^verbatim>\<open>getProjectData\<close>, which \<^verbatim>\<open>sync.ts\<close> imports and the sources do not hold. Each answers
  a request with a value or throws.\<close>

record env =
  markdownToRichText :: "jsstr \<Rightarrow> thrown + rich_text list"
  databases_query :: "query_params \<Rightarrow> thrown + query_response"
  pages_create :: "create_params \<Rightarrow> thrown + unit"
  pages_update :: "string \<Rightarrow> props \<Rightarrow> thrown + unit"
  blocks_children_list :: "string \<Rightarrow> thrown + block_object list"
  blocks_update :: "string \<Rightarrow> block \<Rightarrow> thrown + unit"
  blocks_children_append :: "string \<Rightarrow> block list \<Rightarrow> thrown + unit"
  blocks_delete :: "string \<Rightarrow> thrown + unit"
  issues_listForRepo :: "string \<Rightarrow> string option \<Rightarrow> thrown + issue list list"
  getProjectData :: "string \<Rightarrow> int \<Rightarrow> thrown + project_data option"

text \<open>Awaiting a remote call: the call is recorded, its answer is the result.\<close>

definition await_call :: "call \<Rightarrow> thrown + 'a \<Rightarrow> 'a io" where
  "await_call c answer = ((case answer of Inl e \<Rightarrow> Throws e | Inr v \<Rightarrow> Ok v), [Call c])"

text \<open>\<^verbatim>\<open>await Promise.all(ps)\<close>: every promise of the list has been started, so all their
  events happen. The model lists them promise by promise, and of several rejections it
  reports the first of the list (at run time, the first in time).\<close>

definition promise_all :: "unit io list \<Rightarrow> unit io" where
  "promise_all ps =
     ((if Diverges \<in> set (map fst ps) \<and> filter (\<lambda>r. r \<noteq> Ok () \<and> r \<noteq> Diverges) (map fst ps) = []
       then Diverges
       else case filter (\<lambda>r. r \<noteq> Ok () \<and> r \<noteq> Diverges) (map fst ps) of
              [] \<Rightarrow> Ok ()
            | r # _ \<Rightarrow> r),
      concat (map snd ps))"

text \<open>\<^verbatim>\<open>await Promise.allSettled(ps)\<close>: waits until every promise is fulfilled or rejected
  and yields their outcomes in the order of the list; it never rejects.\<close>

definition promise_allSettled :: "'a io list \<Rightarrow> 'a result list io" where
  "promise_allSettled ps =
     ((if Diverges \<in> set (map fst ps) then Diverges else Ok (map fst ps)),
      concat (map snd ps))"

section \<open>The single-issue path (action.ts)\<close>

subsection \<open>parseBodyRichText (lines 52-81)\<close>

definition plain_annotations :: annotations where
  "plain_annotations =
     \<lparr>bold = False, strikethrough = False, underline = False, italic = False, code = False,
      color = ''default''\<rparr>"

text \<open>The span of the fallback (lines 63-76).\<close>

definition plain_span :: "jsstr \<Rightarrow> rich_text" where
  "plain_span txt =
     \<lparr>rt_type = ''text'', content = txt, link = None, annotations = plain_annotations\<rparr>"

text \<open>A span of strong emphasis.\<close>

definition bold_span :: "jsstr \<Rightarrow> rich_text" where
  "bold_span txt = (plain_span txt)\<lparr>annotations := plain_annotations\<lparr>bold := True\<rparr>\<rparr>"

text \<open>A call of a library function that returns or throws and talks to nobody.\<close>

definition io_of :: "thrown + 'a \<Rightarrow> 'a io" where
  "io_of answer = (case answer of Inl e \<Rightarrow> io_throw e | Inr v \<Rightarrow> io_return v)"

definition parseBodyRichText :: "env \<Rightarrow> jsstr option \<Rightarrow> rich_text list io" where
  "parseBodyRichText env bodyText =
     try_catch
       (let cleanBody = removeHTML bodyText;
            processedBody = preprocessMarkdown cleanBody
        in io_of (markdownToRichText env processedBody))
       (\<lambda>error.
          io_bind (core_log Warning [S ''Failed to parse markdown: '', S (errorMessage error)]) (\<lambda>_.
          let cleanBody = removeHTML bodyText
          in if length cleanBody > 0
             then io_return [plain_span (take 2000 cleanBody)]
             else io_return []))"

subsection \<open>parsePropertiesFromPayload (lines 37-50), getBodyChildrenBlocks (lines 83-93)\<close>

definition parsePropertiesFromPayload :: "env \<Rightarrow> issue \<Rightarrow> props io" where
  "parsePropertiesFromPayload env issue =
     io_bind (parseBodyRichText env (body issue)) (\<lambda>richText.
     io_return
       [(''Name'', Title (title issue)),
        (''Status'', StatusSelectOption (state issue)),
        (''Body'', RichText richText),
        (''Assignees'', MultiSelect (assignees issue)),
        (''Reviewer'', MultiSelect []),
        (''Link'', Url (html_url issue))])"

definition getBodyChildrenBlocks :: "env \<Rightarrow> jsstr option \<Rightarrow> block list io" where
  "getBodyChildrenBlocks env bodyText =
     io_bind (parseBodyRichText env bodyText) (\<lambda>richText. io_return [Paragraph richText])"

subsection \<open>handleIssueOpened (lines 103-117)\<close>

text \<open>The payload of an event that is no issue event has no \<^verbatim>\<open>issue\<close>; reading a field of it
  throws.\<close>

definition handleIssueOpened :: "env \<Rightarrow> string \<Rightarrow> payload \<Rightarrow> unit io" where
  "handleIssueOpened env databaseId payload =
     (case payload_issue payload of
        None \<Rightarrow> io_throw (TypeError_undefined ''number'')
      | Some issue \<Rightarrow>
          io_bind (core_log Info [S ''Creating page for issue #'', N (number issue)]) (\<lambda>_.
          io_bind (parsePropertiesFromPayload env issue) (\<lambda>ps.
          io_bind (getBodyChildrenBlocks env (body issue)) (\<lambda>blocks.
          let params = \<lparr>parent_database_id = databaseId, properties = ps, children = Some blocks\<rparr>
          in await_call (PagesCreate params) (pages_create env params)))))"

subsection \<open>handleIssueEdited (lines 127-208)\<close>

text \<open>The reconciliation of the content blocks (lines 162-184): what the three groups of
  calls are made for.\<close>

definition overlap :: "block list \<Rightarrow> block_object list \<Rightarrow> nat" where
  "overlap bodyBlocks existingBlocks = min (length bodyBlocks) (length existingBlocks)"

text \<open>Lines 165-170: \<^verbatim>\<open>bodyBlocks.slice(0, overlap).map((block, index) => ...)\<close>, each with
  the id of \<^verbatim>\<open>existingBlocks[index]\<close>, where \<open>index < overlap\<close> is in range.\<close>

definition toUpdate :: "block list \<Rightarrow> block_object list \<Rightarrow> (string \<times> block) list" where
  "toUpdate bodyBlocks existingBlocks =
     map (\<lambda>(index, block). (block_id (existingBlocks ! index), block))
       (enumerate 0 (take (overlap bodyBlocks existingBlocks) bodyBlocks))"

text \<open>Lines 173-177: the children of the one append call; none when it is not made.\<close>

definition toAppend :: "block list \<Rightarrow> block_object list \<Rightarrow> block list" where
  "toAppend bodyBlocks existingBlocks =
     (if length bodyBlocks > length existingBlocks
      then drop (overlap bodyBlocks existingBlocks) bodyBlocks
      else [])"

text \<open>Lines 178-184: the ids of the delete calls.\<close>

definition toDelete :: "block list \<Rightarrow> block_object list \<Rightarrow> string list" where
  "toDelete bodyBlocks existingBlocks =
     (if length bodyBlocks > length existingBlocks then []
      else if length bodyBlocks < length existingBlocks
      then map block_id (drop (overlap bodyBlocks existingBlocks) existingBlocks)
      else [])"

definition reconcileBlocks :: "env \<Rightarrow> string \<Rightarrow> block list \<Rightarrow> block_object list \<Rightarrow> unit io" where
  "reconcileBlocks env pageId bodyBlocks existingBlocks =
     io_bind
       (promise_all
          (map (\<lambda>(bid, block). await_call (BlocksUpdate bid block) (blocks_update env bid block))
             (toUpdate bodyBlocks existingBlocks))) (\<lambda>_.
     if length bodyBlocks > length existingBlocks
     then await_call (BlocksChildrenAppend pageId (toAppend bodyBlocks existingBlocks))
            (blocks_children_append env pageId (toAppend bodyBlocks existingBlocks))
     else if length bodyBlocks < length existingBlocks
     then promise_all
            (map (\<lambda>bid. await_call (BlocksDelete bid) (blocks_delete env bid))
               (toDelete bodyBlocks existingBlocks))
     else io_return ())"

text \<open>Lines 146-184: the query found a page, \<open>pageId\<close> is the id of the first result.\<close>

definition updateFoundPage :: "env \<Rightarrow> issue \<Rightarrow> block list \<Rightarrow> string \<Rightarrow> unit io" where
  "updateFoundPage env issue bodyBlocks pageId =
     io_bind (core_log Info [S ''Query successful: Page '', S pageId]) (\<lambda>_.
     io_bind (core_log Info [S ''Updating page for issue #'', N (number issue)]) (\<lambda>_.
     io_bind (parsePropertiesFromPayload env issue) (\<lambda>ps.
     io_bind (await_call (PagesUpdate pageId ps) (pages_update env pageId ps)) (\<lambda>_.
     io_bind (await_call (BlocksChildrenList pageId) (blocks_children_list env pageId))
       (\<lambda>existingBlocks. reconcileBlocks env pageId bodyBlocks existingBlocks)))))"

text \<open>Lines 186-194: the query found nothing.\<close>

definition createMissingPage :: "env \<Rightarrow> string \<Rightarrow> issue \<Rightarrow> block list \<Rightarrow> unit io" where
  "createMissingPage env databaseId issue bodyBlocks =
     io_bind (core_log Warning
                [S ''Could not find page with github id '', N (issue_id issue),
                 S '', creating a new one'']) (\<lambda>_.
     io_bind (parsePropertiesFromPayload env issue) (\<lambda>ps.
     let params = \<lparr>parent_database_id = databaseId, properties = ps,
                    children = Some bodyBlocks\<rparr>
     in await_call (PagesCreate params) (pages_create env params)))"

text \<open>Lines 197-207, behind the conditional and run on both of its paths: they read
  \<^verbatim>\<open>query.results[0].id\<close> again, which throws when the query found nothing.\<close>

definition updateFirstResult :: "env \<Rightarrow> issue \<Rightarrow> query_response \<Rightarrow> unit io" where
  "updateFirstResult env issue query =
     (case results query of
        [] \<Rightarrow> io_throw (TypeError_undefined ''id'')
      | first # _ \<Rightarrow>
          (let pageId = page_id first in
           io_bind (core_log Info [S ''Query successful: Page '', S pageId]) (\<lambda>_.
           io_bind (core_log Info [S ''Updating page for issue #'', N (number issue)]) (\<lambda>_.
           io_bind (parsePropertiesFromPayload env issue) (\<lambda>ps.
           await_call (PagesUpdate pageId ps) (pages_update env pageId ps))))))"

definition handleIssueEdited :: "env \<Rightarrow> string \<Rightarrow> payload \<Rightarrow> unit io" where
  "handleIssueEdited env databaseId payload =
     (case payload_issue payload of
        None \<Rightarrow> io_throw (TypeError_undefined ''id'')
      | Some issue \<Rightarrow>
          (let params = \<lparr>database_id = databaseId, start_cursor = None,
                          filter_ID_equals = Some (issue_id issue), page_size = Some 1\<rparr>
           in
           io_bind (core_log Info
                      [S ''Querying database for page with github id '', N (issue_id issue)]) (\<lambda>_.
           io_bind (await_call (DatabasesQuery params) (databases_query env params)) (\<lambda>query.
           io_bind (getBodyChildrenBlocks env (body issue)) (\<lambda>bodyBlocks.
           io_bind
             (case results query of
                first # _ \<Rightarrow> updateFoundPage env issue bodyBlocks (page_id first)
              | [] \<Rightarrow> createMissingPage env databaseId issue bodyBlocks)
             (\<lambda>_. updateFirstResult env issue query))))))"

section \<open>The reconciliation pass (sync.ts)\<close>

subsection \<open>getIssuesAlreadyInNotion (lines 330-375), createIssueMapping (lines 290-303)\<close>

text \<open>A cursor is falsy when it is \<^verbatim>\<open>null\<close> or the empty string.\<close>

definition truthy :: "string option \<Rightarrow> bool" where
  "truthy c = (case c of None \<Rightarrow> False | Some v \<Rightarrow> v \<noteq> [])"

text \<open>The loop of lines 339-351. Nothing bounds the number of its rounds; a run that uses
  up the fuel stands for one that does not return.\<close>

fun queryAllPages :: "env \<Rightarrow> string \<Rightarrow> nat \<Rightarrow> string option \<Rightarrow> page list \<Rightarrow> page list io" where
  "queryAllPages env databaseId 0 cursor pages = (Diverges, [])"
| "queryAllPages env databaseId (Suc fuel) cursor pages =
     (let params = \<lparr>database_id = databaseId, start_cursor = cursor,
                    filter_ID_equals = None, page_size = None\<rparr>
      in io_bind (await_call (DatabasesQuery params) (databases_query env params)) (\<lambda>response.
         if \<not> truthy (next_cursor response)
         then io_return (pages @ results response)
         else queryAllPages env databaseId fuel (next_cursor response)
                (pages @ results response)))"

text \<open>The callback of lines 355-365 over the pages. Reading \<^verbatim>\<open>.number\<close> of a property that
  the page does not have throws.\<close>

fun collectIssueNumbers ::
  "page list \<Rightarrow> PageIdAndIssueNumber list \<Rightarrow> PageIdAndIssueNumber list io" where
  "collectIssueNumbers [] res = io_return res"
| "collectIssueNumbers (p # ps) res =
     (case page_properties p of
        None \<Rightarrow> collectIssueNumbers ps res
      | Some properties_of_page \<Rightarrow>
          (case map_of properties_of_page ''Number'' of
             None \<Rightarrow> io_throw (TypeError_undefined ''number'')
           | Some prop \<Rightarrow>
               (case number_of prop of
                  NumUndefined \<Rightarrow> collectIssueNumbers ps res
                | num \<Rightarrow>
                    collectIssueNumbers ps
                      (res @ [\<lparr>pin_pageId = page_id p, pin_issueNumber = num\<rparr>]))))"

definition getIssuesAlreadyInNotion ::
  "env \<Rightarrow> string \<Rightarrow> nat \<Rightarrow> PageIdAndIssueNumber list io" where
  "getIssuesAlreadyInNotion env databaseId fuel =
     io_bind (core_log Info [S ''Checking for issues already in the database...'']) (\<lambda>_.
     try_catch
       (io_bind (queryAllPages env databaseId fuel None []) (\<lambda>pages.
        io_bind (collectIssueNumbers pages []) (\<lambda>res.
        io_bind (core_log Info
                   [S ''Found '', N (int (length res)),
                    S '' issues already in Notion database'']) (\<lambda>_.
        io_return res))))
       (\<lambda>error.
          io_bind (core_log Error
                     [S ''Failed to query Notion database: '', S (errorMessage error)]) (\<lambda>_.
          io_bind (core_log Error [S ''Database ID: '', S databaseId]) (\<lambda>_.
          io_throw error))))"

text \<open>\<^verbatim>\<open>issuePageIds.set(issueNumber, pageId)\<close> for each element, in order.\<close>

fun setAll :: "issue_mapping \<Rightarrow> PageIdAndIssueNumber list \<Rightarrow> issue_mapping" where
  "setAll issuePageIds [] = issuePageIds"
| "setAll issuePageIds (x # xs) =
     setAll (issuePageIds(pin_issueNumber x \<mapsto> pin_pageId x)) xs"

definition createIssueMapping :: "env \<Rightarrow> string \<Rightarrow> nat \<Rightarrow> issue_mapping io" where
  "createIssueMapping env databaseId fuel =
     io_bind (getIssuesAlreadyInNotion env databaseId fuel) (\<lambda>issuesAlreadyInNotion.
     io_return (setAll Map.empty issuesAlreadyInNotion))"

subsection \<open>getGitHubIssues (lines 378-395)\<close>

text \<open>\<^verbatim>\<open>s.split('/')\<close>\<close>

fun split_on :: "char \<Rightarrow> string \<Rightarrow> string list" where
  "split_on sep [] = [[]]"
| "split_on sep (c # cs) =
     (if c = sep then [] # split_on sep cs
      else (case split_on sep cs of
              [] \<Rightarrow> [[c]]
            | w # ws \<Rightarrow> (c # w) # ws))"

text \<open>\<^verbatim>\<open>xs[i]\<close>: \<^verbatim>\<open>undefined\<close> out of range.\<close>

definition at_index :: "'a list \<Rightarrow> int \<Rightarrow> 'a option" where
  "at_index xs i = (if 0 \<le> i \<and> i < int (length xs) then Some (xs ! nat i) else None)"

text \<open>The iterator goes through the pages of the listing; the pull requests among their
  items are left out. \<^verbatim>\<open>githubRepo.split('/')\<close> has at least one element, the owner.\<close>

definition getGitHubIssues :: "env \<Rightarrow> string \<Rightarrow> issue list io" where
  "getGitHubIssues env githubRepo =
     io_bind (core_log Info [S ''Finding Github Issues...'']) (\<lambda>_.
     let owner = hd (split_on CHR ''/'' githubRepo);
         repo = at_index (split_on CHR ''/'' githubRepo) 1
     in io_bind (await_call (IssuesListForRepo owner repo) (issues_listForRepo env owner repo))
          (\<lambda>pages. io_return (filter (\<lambda>issue. \<not> pull_request issue) (concat pages))))"

subsection \<open>getIssuesNotInNotion (lines 397-405)\<close>

fun pushIssuesNotInNotion :: "issue_mapping \<Rightarrow> issue list \<Rightarrow> issue list \<Rightarrow> issue list" where
  "pushIssuesNotInNotion issuePageIds [] pagesToCreate = pagesToCreate"
| "pushIssuesNotInNotion issuePageIds (issue # issues) pagesToCreate =
     pushIssuesNotInNotion issuePageIds issues
       (if issuePageIds (NumValue (number issue)) = None
        then pagesToCreate @ [issue]
        else pagesToCreate)"

definition getIssuesNotInNotion :: "issue_mapping \<Rightarrow> issue list \<Rightarrow> issue list" where
  "getIssuesNotInNotion issuePageIds issues = pushIssuesNotInNotion issuePageIds issues []"

subsection \<open>getPropertiesFromIssue (lines 462-513)\<close>

text \<open>An interpolated value that may be \<^verbatim>\<open>undefined\<close>.\<close>

definition template_of :: "string option \<Rightarrow> string" where
  "template_of v = (case v of None \<Rightarrow> ''undefined'' | Some t \<Rightarrow> t)"

text \<open>\<^verbatim>\<open>v || ''\<close>\<close>

definition or_empty :: "'a list option \<Rightarrow> 'a list" where
  "or_empty v = (case v of None \<Rightarrow> [] | Some t \<Rightarrow> t)"

definition getPropertiesFromIssue :: "env \<Rightarrow> issue \<Rightarrow> props io" where
  "getPropertiesFromIssue env issue =
     try_catch
       (let author = user issue;
            urlComponents = split_on CHR ''/'' (repository_url issue);
            org = at_index urlComponents (int (length urlComponents) - 2);
            repo = at_index urlComponents (int (length urlComponents) - 1);
            githubRepo = template_of org @ ''/'' @ template_of repo
        in
        io_bind (await_call (GetProjectData githubRepo (number issue))
                   (getProjectData env githubRepo (number issue))) (\<lambda>projectData.
        io_bind (parseBodyRichText env (Some (or_empty (body issue)))) (\<lambda>richText.
        io_return
          [(''Name'', Title (title issue)),
           (''Status'', StatusSelectOption (state issue)),
           (''Organization'', Text org),
           (''Repository'', Text repo),
           (''Body'', RichText richText),
           (''Number'', Number (number issue)),
           (''Assignees'', MultiSelect (assignees issue)),
           (''Milestone'', Text (Some (or_empty (milestone issue)))),
           (''Labels'', MultiSelect (or_empty (labels issue))),
           (''Author'', Text author),
           (''Created'', Date (created_at issue)),
           (''Updated'', Date (updated_at issue)),
           (''ID'', Number (issue_id issue)),
           (''Link'', Url (html_url issue)),
           (''Project'', Text (Some (or_empty (case projectData of
                                                 None \<Rightarrow> None
                                               | Some pd \<Rightarrow> name pd)))),
           (''Project Column'', Text (Some (or_empty (case projectData of
                                                        None \<Rightarrow> None
                                                      | Some pd \<Rightarrow> columnName pd))))])))
       (\<lambda>error.
          io_bind (core_log Error
                     [S ''Failed to extract properties from issue #'', N (number issue),
                      S '': '', S (errorMessage error)]) (\<lambda>_.
          io_throw error))"

subsection \<open>createPages (lines 408-447)\<close>

text \<open>The asynchronous callback of lines 423-436 for one issue.\<close>

definition createPage :: "env \<Rightarrow> string \<Rightarrow> issue \<Rightarrow> unit io" where
  "createPage env databaseId issue =
     try_catch
       (io_bind (core_log Debug
                   [S ''Creating page for issue #'', N (number issue), S '': '',
                    S (title issue)]) (\<lambda>_.
        io_bind (getPropertiesFromIssue env issue) (\<lambda>ps.
        let params = \<lparr>parent_database_id = databaseId, properties = ps, children = None\<rparr>
        in
        io_bind (await_call (PagesCreate params) (pages_create env params)) (\<lambda>_.
        core_log Info [S ''Successfully created page for issue #'', N (number issue)]))))
       (\<lambda>error.
          io_bind (core_log Error
                     [S ''Failed to create page for issue #'', N (number issue), S '' ('',
                      S (title issue), S ''): '', S (errorMessage error)]) (\<lambda>_.
          io_throw error))"

text \<open>\<^verbatim>\<open>results.filter(r => r.status === 'rejected')\<close>, as the list of the reasons.\<close>

fun rejections :: "'a result list \<Rightarrow> thrown list" where
  "rejections [] = []"
| "rejections (Throws e # rs) = e # rejections rs"
| "rejections (r # rs) = rejections rs"

text \<open>The callbacks of \<^verbatim>\<open>pagesToCreate.map\<close> are started one after the other and then run
  interleaved; the model lists the events of each attempt together, attempt by attempt in
  the order of \<open>pagesToCreate\<close>, which is also the order of the outcomes.\<close>

definition createPages :: "env \<Rightarrow> string \<Rightarrow> issue list \<Rightarrow> unit io" where
  "createPages env databaseId pagesToCreate =
     io_bind (core_log Info [S ''Adding Github Issues to Notion...'']) (\<lambda>_.
     io_bind (core_log Info
                [S ''Creating '', N (int (length pagesToCreate)),
                 S '' pages in Notion database'']) (\<lambda>_.
     if length pagesToCreate = 0
     then core_log Info [S ''No new issues to add to Notion'']
     else
       io_bind (promise_allSettled (map (createPage env databaseId) pagesToCreate)) (\<lambda>outcomes.
       let failures = rejections outcomes in
       if length failures > 0
       then
         io_bind (core_log Error
                    [N (int (length failures)), S '' of '', N (int (length pagesToCreate)),
                     S '' pages failed to create'']) (\<lambda>_.
         if length failures > 0
         then io_throw (new_Error
                 (''Failed to create pages in Notion: '' @ String_of (hd failures)))
         else io_return ())
       else io_return ())))"

subsection \<open>syncNotionDBWithGitHub (lines 305-327)\<close>

definition syncNotionDBWithGitHub :: "issue_mapping \<Rightarrow> env \<Rightarrow> string \<Rightarrow> string \<Rightarrow> unit io" where
  "syncNotionDBWithGitHub issuePageIds env databaseId githubRepo =
     try_catch
       (io_bind (core_log Info [S ''Starting sync for repository: '', S githubRepo]) (\<lambda>_.
        io_bind (getGitHubIssues env githubRepo) (\<lambda>issues.
        io_bind (core_log Info
                   [S ''Found '', N (int (length issues)), S '' total issues in GitHub'']) (\<lambda>_.
        let pagesToCreate = getIssuesNotInNotion issuePageIds issues in
        io_bind (core_log Info
                   [N (int (length pagesToCreate)),
                    S '' issues need to be added to Notion'']) (\<lambda>_.
        io_bind (createPages env databaseId pagesToCreate) (\<lambda>_.
        core_log Info [S ''Sync completed successfully''])))))) 
       (\<lambda>error.
          io_bind (core_log Error [S ''Sync failed: '', S (errorMessage error)]) (\<lambda>_.
          io_throw error))"

section \<open>run (action.ts, lines 222-274)\<close>

text \<open>Lines 247-262: the manual reconciliation.\<close>

definition workflowDispatch :: "env \<Rightarrow> string \<Rightarrow> payload \<Rightarrow> nat \<Rightarrow> unit io" where
  "workflowDispatch env databaseId payload fuel =
     try_catch
       (io_bind (core_log Info [S ''Using Notion database ID: '', S databaseId]) (\<lambda>_.
        io_bind (createIssueMapping env databaseId fuel) (\<lambda>issuePageIds.
        if \<not> truthy (repository_full_name payload)
        then io_throw (new_Error ''Unable to find repository name in github webhook context'')
        else syncNotionDBWithGitHub issuePageIds env databaseId
               (or_empty (repository_full_name payload)))))
       (\<lambda>error.
          io_bind (core_log Error
                     [S ''Workflow dispatch sync failed: '', S (errorMessage error)]) (\<lambda>_.
          io_throw error))"

text \<open>Constructing the two clients (lines 232-236, 248) sends nothing. An input that is not
  set is \<open>None\<close>.\<close>

definition run :: "env \<Rightarrow> options \<Rightarrow> nat \<Rightarrow> unit io" where
  "run env opts fuel =
     io_bind (core_log Info [S ''Starting...'']) (\<lambda>_.
     if \<not> truthy (notion_databaseId opts) \<or> length (or_empty (notion_databaseId opts)) = 0
     then io_throw (new_Error
             ''Notion database ID is not configured. Please set the notion-db input parameter.'')
     else
       io_bind
         (if action (github_payload opts) = Some ''opened''
          then handleIssueOpened env (or_empty (notion_databaseId opts)) (github_payload opts)
          else if github_eventName opts = ''workflow_dispatch''
          then workflowDispatch env (or_empty (notion_databaseId opts)) (github_payload opts) fuel
          else handleIssueEdited env (or_empty (notion_databaseId opts)) (github_payload opts))
         (\<lambda>_. core_log Info [S ''Complete!'']))"

section \<open>Reading a trace\<close>

fun remote_calls :: "event list \<Rightarrow> call list" where
  "remote_calls [] = []"
| "remote_calls (Call c # evs) = c # remote_calls evs"
| "remote_calls (Log l msg # evs) = remote_calls evs"

fun create_requests :: "event list \<Rightarrow> create_params list" where
  "create_requests [] = []"
| "create_requests (Call (PagesCreate params) # evs) = params # create_requests evs"
| "create_requests (ev # evs) = create_requests evs"

fun is_query :: "call \<Rightarrow> bool" where
  "is_query (DatabasesQuery q) = True"
| "is_query c = False"

fun debug_lines :: "event list \<Rightarrow> piece list list" where
  "debug_lines [] = []"
| "debug_lines (Log Debug msg # evs) = msg # debug_lines evs"
| "debug_lines (ev # evs) = debug_lines evs"

fun warnings :: "event list \<Rightarrow> piece list list" where
  "warnings [] = []"
| "warnings (Log Warning msg # evs) = msg # warnings evs"
| "warnings (ev # evs) = warnings evs"

section \<open>The answers of a ledger\<close>

text \<open>The ledger answers the pagination that starts at \<open>cursor\<close> with the page responses
  \<open>rs\<close>, one after the other: each but the last hands out the cursor of the next, the last
  hands out none.\<close>

fun paginates :: "env \<Rightarrow> string \<Rightarrow> string option \<Rightarrow> query_response list \<Rightarrow> bool" where
  "paginates env databaseId cursor [] = False"
| "paginates env databaseId cursor (r # rs) =
     (databases_query env \<lparr>database_id = databaseId, start_cursor = cursor,
                            filter_ID_equals = None, page_size = None\<rparr> = Inr r \<and>
      (if rs = [] then \<not> truthy (next_cursor r)
       else truthy (next_cursor r) \<and> paginates env databaseId (next_cursor r) rs))"

text \<open>The page has no \<^verbatim>\<open>properties\<close>, or has a \<^verbatim>\<open>Number\<close> property among them.\<close>

definition has_Number :: "page \<Rightarrow> bool" where
  "has_Number p =
     (case page_properties p of
        None \<Rightarrow> True
      | Some properties_of_page \<Rightarrow> map_of properties_of_page ''Number'' \<noteq> None)"

text \<open>The entries that the pages hold for the mapping: of each page whose \<^verbatim>\<open>Number\<close> property
  has a \<^verbatim>\<open>number\<close> field, the page id under what that field holds.\<close>

fun entries_with_number :: "page list \<Rightarrow> PageIdAndIssueNumber list" where
  "entries_with_number [] = []"
| "entries_with_number (p # ps) =
     (case page_properties p of
        None \<Rightarrow> entries_with_number ps
      | Some properties_of_page \<Rightarrow>
          (case map_of properties_of_page ''Number'' of
             None \<Rightarrow> entries_with_number ps
           | Some prop \<Rightarrow>
               (case number_of prop of
                  NumUndefined \<Rightarrow> entries_with_number ps
                | num \<Rightarrow> \<lparr>pin_pageId = page_id p, pin_issueNumber = num\<rparr> #
                         entries_with_number ps)))"

section \<open>Concrete inputs\<close>

definition issue1 :: issue where
  "issue1 =
     \<lparr>number = 7, issue_id = 1001, title = ''Crash on start'', state = ''open'',
      body = Some (js ''# Steps''), assignees = [''ada''], labels = Some [''bug''],
      milestone = None, created_at = ''2024-01-01T00:00:00Z'',
      updated_at = ''2024-01-02T00:00:00Z'',
      repository_url = ''https://api.github.com/repos/oakestra/oakestra'', user = Some ''ada'',
      html_url = ''https://github.com/oakestra/oakestra/issues/7'', pull_request = False\<rparr>"

definition issue2 :: issue where
  "issue2 = issue1\<lparr>number := 8, issue_id := 1002, title := ''Docs'', body := None\<rparr>"

definition issue3 :: issue where
  "issue3 = issue1\<lparr>number := 9, issue_id := 1003, title := ''Logs'', body := Some (js ''text'')\<rparr>"

text \<open>Collaborators that answer every request: the parser returns its input as one plain
  span, the ledger is empty.\<close>

definition env_ok :: env where
  "env_ok =
     \<lparr>markdownToRichText = (\<lambda>t. Inr [plain_span t]),
      databases_query = (\<lambda>q. Inr \<lparr>results = [], next_cursor = None\<rparr>),
      pages_create = (\<lambda>p. Inr ()),
      pages_update = (\<lambda>i p. Inr ()),
      blocks_children_list = (\<lambda>i. Inr []),
      blocks_update = (\<lambda>i b. Inr ()),
      blocks_children_append = (\<lambda>i bs. Inr ()),
      blocks_delete = (\<lambda>i. Inr ()),
      issues_listForRepo = (\<lambda>owner repo. Inr []),
      getProjectData = (\<lambda>r n. Inr None)\<rparr>"

text \<open>The project lookup fails.\<close>

definition env_no_project :: env where
  "env_no_project = env_ok\<lparr>getProjectData := (\<lambda>r n. Inl (new_Error ''Not Found''))\<rparr>"

text \<open>The ledger refuses the entry of issue 8.\<close>

definition env_create_fails :: env where
  "env_create_fails =
     env_ok\<lparr>pages_create :=
       (\<lambda>p. if map_of (properties p) ''Number'' = Some (Number 8)
            then Inl (ErrorObj ''APIResponseError'' ''validation_error'')
            else Inr ())\<rparr>"

definition opts_closed :: options where
  "opts_closed =
     \<lparr>notion_token = ''secret'', notion_databaseId = Some ''db'',
      github_payload = \<lparr>action = Some ''closed'', payload_issue = Some issue1,
                        repository_full_name = Some ''oakestra/oakestra''\<rparr>,
      github_eventName = ''issues'', github_token = ''token''\<rparr>"

definition opts_no_database :: options where
  "opts_no_database = opts_closed\<lparr>notion_databaseId := None\<rparr>"

definition payload_edited :: payload where
  "payload_edited =
     \<lparr>action = Some ''edited'', payload_issue = Some issue1,
      repository_full_name = Some ''oakestra/oakestra''\<rparr>"

text \<open>The structured parser throws on every text.\<close>

definition env_parser_throws :: env where
  "env_parser_throws =
     env_ok\<lparr>markdownToRichText := (\<lambda>t. Inl (new_Error ''Unexpected token''))\<rparr>"

text \<open>Ledger rows: one without a \<^verbatim>\<open>Number\<close> property, one whose \<^verbatim>\<open>Number\<close> property has no
  value, one of issue 7.\<close>

definition row_no_number :: page where
  "row_no_number = \<lparr>page_id = ''row-1'', page_properties = Some [(''Name'', OtherProperty)]\<rparr>"

definition row_null_number :: page where
  "row_null_number =
     \<lparr>page_id = ''row-2'',
      page_properties = Some [(''Name'', OtherProperty), (''Number'', NumberProperty None)]\<rparr>"

definition row_issue7 :: page where
  "row_issue7 =
     \<lparr>page_id = ''row-3'',
      page_properties = Some [(''Name'', OtherProperty), (''Number'', NumberProperty (Some 7))]\<rparr>"

definition env_no_number :: env where
  "env_no_number =
     env_ok\<lparr>databases_query :=
       (\<lambda>q. Inr \<lparr>results = [row_issue7, row_no_number], next_cursor = None\<rparr>)\<rparr>"

definition env_null_number :: env where
  "env_null_number =
     env_ok\<lparr>databases_query :=
       (\<lambda>q. Inr \<lparr>results = [row_null_number, row_issue7], next_cursor = None\<rparr>)\<rparr>"

text \<open>A ledger of two pages of results.\<close>

definition env_two_pages :: env where
  "env_two_pages =
     env_ok\<lparr>databases_query :=
       (\<lambda>q. if start_cursor q = None
            then Inr \<lparr>results = [row_issue7], next_cursor = Some ''cursor-1''\<rparr>
            else Inr \<lparr>results = [\<lparr>page_id = ''row-4'',
                                   page_properties = Some [(''Number'', NumberProperty (Some 8))]\<rparr>],
                      next_cursor = None\<rparr>)\<rparr>"

text \<open>The structured parser on the text \<^verbatim>\<open>**Fix #12**\<close>: strong emphasis is one bold span of
  the text inside. (Any other text is left as one plain span here.)\<close>

definition env_strong :: env where
  "env_strong =
     env_ok\<lparr>markdownToRichText :=
       (\<lambda>t. if t = js ''**Fix #12**'' then Inr [bold_span (js ''Fix #12'')]
            else Inr [plain_span t])\<rparr>"

text \<open>The two page responses of the ledger \<open>env_two_pages\<close>.\<close>

definition ledger_page1 :: query_response where
  "ledger_page1 = \<lparr>results = [row_issue7], next_cursor = Some ''cursor-1''\<rparr>"

definition ledger_page2 :: query_response where
  "ledger_page2 =
     \<lparr>results = [\<lparr>page_id = ''row-4'',
                   page_properties = Some [(''Number'', NumberProperty (Some 8))]\<rparr>],
      next_cursor = None\<rparr>"

text \<open>A body with two headings and a paragraph tag.\<close>

definition body_two_headings :: jsstr where
  "body_two_headings =
     js ''# Title'' @ [ch_nl] @ js ''<p>Intro</p>'' @ [ch_nl] @ js ''## Steps to do'' @ [ch_nl] @
     js ''run it''"

section \<open>Results and traces of the combinators\<close>

lemma fst_io_bind:
  "fst (io_bind m f) =
     (case fst m of Ok x \<Rightarrow> fst (f x) | Throws e \<Rightarrow> Throws e | Diverges \<Rightarrow> Diverges)"
  by (cases m; cases "fst m") (auto simp: io_bind_def split: prod.splits)

lemma snd_io_bind:
  "snd (io_bind m f) =
     (case fst m of Ok x \<Rightarrow> snd m @ snd (f x) | Throws e \<Rightarrow> snd m | Diverges \<Rightarrow> snd m)"
  by (cases m; cases "fst m") (auto simp: io_bind_def split: prod.splits)

lemma fst_try_catch:
  "fst (try_catch m h) =
     (case fst m of Throws e \<Rightarrow> fst (h e) | Ok x \<Rightarrow> Ok x | Diverges \<Rightarrow> Diverges)"
  by (cases m; cases "fst m") (auto simp: try_catch_def split: prod.splits)

lemma snd_try_catch:
  "snd (try_catch m h) =
     (case fst m of Throws e \<Rightarrow> snd m @ snd (h e) | Ok x \<Rightarrow> snd m | Diverges \<Rightarrow> snd m)"
  by (cases m; cases "fst m") (auto simp: try_catch_def split: prod.splits)

lemma io_simps [simp]:
  "fst (io_return x) = Ok x" "snd (io_return x) = []"
  "fst (io_throw e) = Throws e" "snd (io_throw e) = []"
  "fst (core_log l msg) = Ok ()" "snd (core_log l msg) = [Log l msg]"
  "fst (await_call c answer) = (case answer of Inl e \<Rightarrow> Throws e | Inr v \<Rightarrow> Ok v)"
  "snd (await_call c answer) = [Call c]"
  "fst (io_of answer) = (case answer of Inl e \<Rightarrow> Throws e | Inr v \<Rightarrow> Ok v)"
  "snd (io_of answer) = []"
  by (simp_all add: io_return_def io_throw_def core_log_def await_call_def io_of_def
      split: sum.splits)

lemmas io_fst_snd = fst_io_bind snd_io_bind fst_try_catch snd_try_catch

lemmas io_eval =
  io_bind_def try_catch_def core_log_def io_return_def io_throw_def await_call_def io_of_def

lemma split_on_not_Nil: "split_on sep s \<noteq> []"
  by (induction s) (auto split: list.splits)

lemma remote_calls_append [simp]: "remote_calls (xs @ ys) = remote_calls xs @ remote_calls ys"
  by (induction xs rule: remote_calls.induct) simp_all

lemma create_requests_append [simp]:
  "create_requests (xs @ ys) = create_requests xs @ create_requests ys"
  by (induction xs rule: create_requests.induct) simp_all

lemma create_requests_concat:
  "create_requests (concat xss) = concat (map create_requests xss)"
  by (induction xss) simp_all

lemma debug_lines_append [simp]: "debug_lines (xs @ ys) = debug_lines xs @ debug_lines ys"
  by (induction xs rule: debug_lines.induct) simp_all

lemma debug_lines_concat: "debug_lines (concat xss) = concat (map debug_lines xss)"
  by (induction xss) simp_all

lemma fst_parseBodyRichText:
  "fst (parseBodyRichText env b) =
     (case markdownToRichText env (preprocessMarkdown (removeHTML b)) of
        Inr spans \<Rightarrow> Ok spans
      | Inl e \<Rightarrow> Ok (if removeHTML b = [] then [] else [plain_span (take 2000 (removeHTML b))]))"
  by (simp add: parseBodyRichText_def io_fst_snd Let_def split: sum.splits)

lemma snd_parseBodyRichText:
  "snd (parseBodyRichText env b) =
     (case markdownToRichText env (preprocessMarkdown (removeHTML b)) of
        Inr spans \<Rightarrow> []
      | Inl e \<Rightarrow> [Log Warning [S ''Failed to parse markdown: '', S (errorMessage e)]])"
  by (simp add: parseBodyRichText_def io_fst_snd Let_def split: sum.splits)

section \<open>The content blocks of an edited issue\<close>

lemma toUpdate_zip:
  "toUpdate d e =
     zip (map block_id (take (min (length d) (length e)) e)) (take (min (length d) (length e)) d)"
proof (rule nth_equalityI)
  show "length (toUpdate d e) =
    length (zip (map block_id (take (min (length d) (length e)) e))
              (take (min (length d) (length e)) d))"
    by (simp add: toUpdate_def overlap_def)
next
  fix i assume "i < length (toUpdate d e)"
  then have i: "i < length d" "i < length e"
    by (simp_all add: toUpdate_def overlap_def)
  then show "toUpdate d e ! i =
    zip (map block_id (take (min (length d) (length e)) e))
      (take (min (length d) (length e)) d) ! i"
    by (simp add: toUpdate_def overlap_def nth_enumerate_eq)
qed

text \<open>
  Claim C3. For every desired block list \<open>d\<close> and every existing block list \<open>e\<close>, the calls
  that lines 162-184 make are these: the update pairs are \<open>min (length d) (length e)\<close> many
  and pair position \<open>i\<close> of the desired blocks with the id at position \<open>i\<close> of the existing
  ones; the appended blocks are the desired blocks from position \<open>length e\<close> on, in order,
  \<open>max 0 (length d - length e)\<close> many; the deleted ids are those of the existing blocks from
  position \<open>length d\<close> on, \<open>max 0 (length e - length d)\<close> many; and the updated blocks
  followed by the appended blocks are the desired list.
\<close>

theorem reconcile_plan:
  "length (toUpdate d e) = min (length d) (length e) \<and>
   toUpdate d e =
     zip (map block_id (take (min (length d) (length e)) e))
       (take (min (length d) (length e)) d) \<and>
   int (length (toAppend d e)) = max 0 (int (length d) - int (length e)) \<and>
   toAppend d e = drop (length e) d \<and>
   int (length (toDelete d e)) = max 0 (int (length e) - int (length d)) \<and>
   toDelete d e = map block_id (drop (length d) e) \<and>
   map snd (toUpdate d e) @ toAppend d e = d"
proof (intro conjI)
  show "length (toUpdate d e) = min (length d) (length e)"
    by (simp add: toUpdate_def overlap_def)
  show "toUpdate d e =
     zip (map block_id (take (min (length d) (length e)) e))
       (take (min (length d) (length e)) d)"
    by (rule toUpdate_zip)
  show "int (length (toAppend d e)) = max 0 (int (length d) - int (length e))"
    by (simp add: toAppend_def overlap_def)
  show "toAppend d e = drop (length e) d"
    by (simp add: toAppend_def overlap_def)
  show "int (length (toDelete d e)) = max 0 (int (length e) - int (length d))"
    by (simp add: toDelete_def overlap_def)
  show "toDelete d e = map block_id (drop (length d) e)"
    by (simp add: toDelete_def overlap_def)
  show "map snd (toUpdate d e) @ toAppend d e = d"
    by (cases "length e < length d")
       (simp_all add: toUpdate_zip toAppend_def overlap_def min_def)
qed

text \<open>Two existing blocks, one desired block: the first is updated, the second deleted.\<close>

lemma reconcile_plan_example:
  "toUpdate [new] [\<lparr>block_id = ''block0'', block_content = old0\<rparr>,
                   \<lparr>block_id = ''block1'', block_content = old1\<rparr>] = [(''block0'', new)] \<and>
   toAppend [new] [\<lparr>block_id = ''block0'', block_content = old0\<rparr>,
                   \<lparr>block_id = ''block1'', block_content = old1\<rparr>] = [] \<and>
   toDelete [new] [\<lparr>block_id = ''block0'', block_content = old0\<rparr>,
                   \<lparr>block_id = ''block1'', block_content = old1\<rparr>] = [''block1'']"
  by (simp add: toUpdate_def toAppend_def toDelete_def overlap_def enumerate_eq_zip)

lemma promise_all_Ok:
  "\<forall>m\<in>set ms. fst m = Ok () \<Longrightarrow> promise_all ms = (Ok (), concat (map snd ms))"
proof -
  assume a: "\<forall>m\<in>set ms. fst m = Ok ()"
  then have "Diverges \<notin> set (map fst ms)"
    by auto
  moreover from a have "filter (\<lambda>r. r \<noteq> Ok () \<and> r \<noteq> Diverges) (map fst ms) = []"
    by (auto simp: filter_empty_conv)
  ultimately show ?thesis
    by (simp add: promise_all_def)
qed

text \<open>When the ledger accepts the updates and the deletions, the remote calls of lines
  162-184 are these three groups, in this order.\<close>

lemma reconcileBlocks_calls:
  assumes "\<And>bid block. blocks_update env bid block = Inr ()"
    and "\<And>bid. blocks_delete env bid = Inr ()"
  shows "remote_calls (snd (reconcileBlocks env pageId d e)) =
           map (\<lambda>(bid, block). BlocksUpdate bid block) (toUpdate d e) @
           (if toAppend d e = [] then [] else [BlocksChildrenAppend pageId (toAppend d e)]) @
           map BlocksDelete (toDelete d e)"
proof -
  have u: "promise_all
             (map (\<lambda>(bid, block). await_call (BlocksUpdate bid block) (blocks_update env bid block))
                (toUpdate d e)) =
           (Ok (), map (\<lambda>(bid, block). Call (BlocksUpdate bid block)) (toUpdate d e))"
    by (subst promise_all_Ok)
       (auto simp: assms await_call_def comp_def case_prod_unfold intro!: arg_cong [where f = concat])
  have dl: "promise_all (map (\<lambda>bid. await_call (BlocksDelete bid) (blocks_delete env bid))
                         (toDelete d e)) =
            (Ok (), map (\<lambda>bid. Call (BlocksDelete bid)) (toDelete d e))"
    by (subst promise_all_Ok)
       (auto simp: assms await_call_def comp_def intro!: arg_cong [where f = concat])
  have rc1: "remote_calls (map (\<lambda>(bid, block). Call (BlocksUpdate bid block)) xs) =
               map (\<lambda>(bid, block). BlocksUpdate bid block) xs" for xs
    by (induction xs) auto
  have rc2: "remote_calls (map (\<lambda>bid. Call (BlocksDelete bid)) xs) = map BlocksDelete xs" for xs
    by (induction xs) auto
  consider (more) "length d > length e" | (less) "length d < length e"
    | (same) "length d = length e"
    by linarith
  then show ?thesis
  proof cases
    case more
    then have "toAppend d e \<noteq> []" and "toDelete d e = []"
      by (simp_all add: toAppend_def toDelete_def overlap_def)
    with more show ?thesis
      by (simp add: reconcileBlocks_def u rc1 io_fst_snd)
  next
    case less
    then have "toAppend d e = []"
      by (simp add: toAppend_def)
    with less show ?thesis
      by (simp add: reconcileBlocks_def u dl rc1 rc2 io_fst_snd)
  next
    case same
    then have "toAppend d e = []" and "toDelete d e = []"
      by (simp_all add: toAppend_def toDelete_def)
    with same show ?thesis
      by (simp add: reconcileBlocks_def u rc1 io_fst_snd)
  qed
qed

section \<open>The creation of the missing entries\<close>

lemma getPropertiesFromIssue_not_Diverges: "fst (getPropertiesFromIssue env i) \<noteq> Diverges"
  by (simp add: getPropertiesFromIssue_def io_fst_snd fst_parseBodyRichText Let_def
      split: sum.splits)

lemma create_requests_getProperties:
  "create_requests (snd (getPropertiesFromIssue env i)) = []"
  by (simp add: getPropertiesFromIssue_def io_fst_snd fst_parseBodyRichText
      snd_parseBodyRichText Let_def split: sum.splits)

lemma createPage_not_Diverges: "fst (createPage env db i) \<noteq> Diverges"
  using getPropertiesFromIssue_not_Diverges [of env i]
  by (simp add: createPage_def io_fst_snd Let_def split: sum.splits result.splits)

lemma create_requests_createPage:
  "create_requests (snd (createPage env db i)) =
     (case fst (getPropertiesFromIssue env i) of
        Ok ps \<Rightarrow> [\<lparr>parent_database_id = db, properties = ps, children = None\<rparr>]
      | Throws e \<Rightarrow> []
      | Diverges \<Rightarrow> [])"
  by (simp add: createPage_def io_fst_snd Let_def create_requests_getProperties
      split: sum.splits result.splits)

lemma debug_lines_getProperties: "debug_lines (snd (getPropertiesFromIssue env i)) = []"
  by (simp add: getPropertiesFromIssue_def io_fst_snd fst_parseBodyRichText
      snd_parseBodyRichText Let_def split: sum.splits)

lemma debug_lines_createPage:
  "debug_lines (snd (createPage env db i)) =
     [[S ''Creating page for issue #'', N (number i), S '': '', S (title i)]]"
  by (simp add: createPage_def io_fst_snd Let_def debug_lines_getProperties
      split: sum.splits result.splits)

lemma pushIssuesNotInNotion_filter:
  "pushIssuesNotInNotion m issues acc =
     acc @ filter (\<lambda>issue. m (NumValue (number issue)) = None) issues"
  by (induction issues arbitrary: acc) simp_all

lemma getIssuesNotInNotion_filter:
  "getIssuesNotInNotion m issues = filter (\<lambda>issue. m (NumValue (number issue)) = None) issues"
  by (simp add: getIssuesNotInNotion_def pushIssuesNotInNotion_filter)

lemma fst_promise_allSettled_createPage:
  "fst (promise_allSettled (map (createPage env db) ps)) =
     Ok (map (\<lambda>i. fst (createPage env db i)) ps)"
proof -
  have "Diverges \<notin> set (map fst (map (createPage env db) ps))"
  proof
    assume "Diverges \<in> set (map fst (map (createPage env db) ps))"
    then obtain i where "fst (createPage env db i) = Diverges"
      by (auto simp: eq_commute [of Diverges])
    then show False
      using createPage_not_Diverges by blast
  qed
  then show ?thesis
    by (simp add: promise_allSettled_def comp_def)
qed

lemma snd_promise_allSettled: "snd (promise_allSettled ms) = concat (map snd ms)"
  by (simp add: promise_allSettled_def)

lemma fst_createPages:
  "fst (createPages env db ps) =
     (case rejections (map (\<lambda>i. fst (createPage env db i)) ps) of
        [] \<Rightarrow> Ok ()
      | e # _ \<Rightarrow> Throws (new_Error (''Failed to create pages in Notion: '' @ String_of e)))"
  by (cases "ps = []")
     (simp_all add: createPages_def io_fst_snd fst_promise_allSettled_createPage Let_def
        split: list.splits)

lemma snd_createPages:
  "snd (createPages env db ps) =
     [Log Info [S ''Adding Github Issues to Notion...''],
      Log Info [S ''Creating '', N (int (length ps)), S '' pages in Notion database'']] @
     (if ps = [] then [Log Info [S ''No new issues to add to Notion'']]
      else concat (map (\<lambda>i. snd (createPage env db i)) ps) @
           (if rejections (map (\<lambda>i. fst (createPage env db i)) ps) = [] then []
            else [Log Error
                    [N (int (length (rejections (map (\<lambda>i. fst (createPage env db i)) ps)))),
                     S '' of '', N (int (length ps)), S '' pages failed to create'']]))"
  by (cases "ps = []")
     (simp_all add: createPages_def io_fst_snd fst_promise_allSettled_createPage
        snd_promise_allSettled Let_def comp_def split: list.splits)

text \<open>
  Claim C1, as the code has it. For every mapping and every source issue list, the pass
  starts one create attempt (its first log line) for each issue whose number is absent from
  the mapping, in the order of the listing, and none for an issue whose number is present.
  An attempt sends its create-entry request only when the property mapping of its issue
  has succeeded (lines 426-429 await \<^verbatim>\<open>getPropertiesFromIssue\<close> before they call
  \<^verbatim>\<open>notion.pages.create\<close>): the requests sent are those of the absent issues whose
  properties could be built, one each.
\<close>

theorem reconciliation_create_requests:
  "debug_lines (snd (createPages env db (getIssuesNotInNotion m issues))) =
     map (\<lambda>issue. [S ''Creating page for issue #'', N (number issue), S '': '', S (title issue)])
       (filter (\<lambda>issue. m (NumValue (number issue)) = None) issues) \<and>
   create_requests (snd (createPages env db (getIssuesNotInNotion m issues))) =
     concat (map (\<lambda>issue.
        case fst (getPropertiesFromIssue env issue) of
          Ok ps \<Rightarrow> [\<lparr>parent_database_id = db, properties = ps, children = None\<rparr>]
        | Throws e \<Rightarrow> []
        | Diverges \<Rightarrow> [])
       (filter (\<lambda>issue. m (NumValue (number issue)) = None) issues))"
  by (simp add: snd_createPages getIssuesNotInNotion_filter create_requests_concat
      debug_lines_concat comp_def create_requests_createPage debug_lines_createPage)

text \<open>
  Claim C1, as stated, fails: issue 7 is absent from the empty mapping, the project lookup
  of its property mapping throws, and no create-entry request is sent for it.
\<close>

theorem reconciliation_counterexample:
  "getIssuesNotInNotion Map.empty [issue1] = [issue1] \<and>
   create_requests (snd (createPages env_no_project ''db''
                           (getIssuesNotInNotion Map.empty [issue1]))) = []"
  by (simp add: getIssuesNotInNotion_filter snd_createPages create_requests_createPage
      getPropertiesFromIssue_def io_fst_snd env_no_project_def env_ok_def Let_def)

text \<open>The pass of \<^verbatim>\<open>syncNotionDBWithGitHub\<close> sends the create-entry requests of
  \<^verbatim>\<open>createPages\<close> on the issues that \<^verbatim>\<open>getIssuesNotInNotion\<close> keeps of the source listing
  without its pull requests.\<close>

lemma fst_getGitHubIssues:
  "fst (getGitHubIssues env githubRepo) =
     (case issues_listForRepo env (hd (split_on CHR ''/'' githubRepo))
             (at_index (split_on CHR ''/'' githubRepo) 1) of
        Inl e \<Rightarrow> Throws e
      | Inr pages \<Rightarrow> Ok (filter (\<lambda>issue. \<not> pull_request issue) (concat pages)))"
  by (simp add: getGitHubIssues_def io_fst_snd Let_def split: sum.splits)

lemma create_requests_getGitHubIssues:
  "create_requests (snd (getGitHubIssues env githubRepo)) = []"
  by (simp add: getGitHubIssues_def io_fst_snd Let_def split: sum.splits)

lemma syncNotionDBWithGitHub_create_requests:
  "create_requests (snd (syncNotionDBWithGitHub m env db githubRepo)) =
     (case fst (getGitHubIssues env githubRepo) of
        Ok issues \<Rightarrow> create_requests (snd (createPages env db (getIssuesNotInNotion m issues)))
      | Throws e \<Rightarrow> []
      | Diverges \<Rightarrow> [])"
  by (simp add: syncNotionDBWithGitHub_def io_fst_snd Let_def create_requests_getGitHubIssues
      split: result.splits)

text \<open>
  Claim C2. In the fan-out of \<^verbatim>\<open>createPages\<close> every attempt ends, fulfilled or rejected; the
  events of every attempt are part of the pass whatever the outcomes of the other attempts
  are, and the line that counts the failures is written behind all of them; if at least
  one attempt is rejected, the pass throws, behind all that, an error whose message holds
  the text of the first rejection.
\<close>

theorem createPages_settles_all:
  "Diverges \<notin> set (map (\<lambda>issue. fst (createPage env db issue)) pagesToCreate) \<and>
   (pagesToCreate \<noteq> [] \<longrightarrow>
      snd (createPages env db pagesToCreate) =
        [Log Info [S ''Adding Github Issues to Notion...''],
         Log Info [S ''Creating '', N (int (length pagesToCreate)),
                   S '' pages in Notion database'']] @
        concat (map (\<lambda>issue. snd (createPage env db issue)) pagesToCreate) @
        (if rejections (map (\<lambda>issue. fst (createPage env db issue)) pagesToCreate) = []
         then []
         else [Log Error
                 [N (int (length (rejections
                                   (map (\<lambda>issue. fst (createPage env db issue))
                                      pagesToCreate)))),
                  S '' of '', N (int (length pagesToCreate)),
                  S '' pages failed to create'']])) \<and>
   (rejections (map (\<lambda>issue. fst (createPage env db issue)) pagesToCreate) \<noteq> [] \<longrightarrow>
      fst (createPages env db pagesToCreate) =
        Throws (new_Error
          (''Failed to create pages in Notion: '' @
           String_of (hd (rejections
                            (map (\<lambda>issue. fst (createPage env db issue)) pagesToCreate))))))"
proof (intro conjI impI)
  show "Diverges \<notin> set (map (\<lambda>issue. fst (createPage env db issue)) pagesToCreate)"
    using createPage_not_Diverges by (auto simp: eq_commute [of Diverges])
next
  assume "pagesToCreate \<noteq> []"
  then show "snd (createPages env db pagesToCreate) =
        [Log Info [S ''Adding Github Issues to Notion...''],
         Log Info [S ''Creating '', N (int (length pagesToCreate)),
                   S '' pages in Notion database'']] @
        concat (map (\<lambda>issue. snd (createPage env db issue)) pagesToCreate) @
        (if rejections (map (\<lambda>issue. fst (createPage env db issue)) pagesToCreate) = []
         then []
         else [Log Error
                 [N (int (length (rejections
                                   (map (\<lambda>issue. fst (createPage env db issue))
                                      pagesToCreate)))),
                  S '' of '', N (int (length pagesToCreate)),
                  S '' pages failed to create'']])"
    by (simp add: snd_createPages)
next
  assume "rejections (map (\<lambda>issue. fst (createPage env db issue)) pagesToCreate) \<noteq> []"
  then show "fst (createPages env db pagesToCreate) =
        Throws (new_Error
          (''Failed to create pages in Notion: '' @
           String_of (hd (rejections
                            (map (\<lambda>issue. fst (createPage env db issue)) pagesToCreate)))))"
    by (simp add: fst_createPages split: list.splits)
qed

lemma createPage_issue1: "fst (createPage env_create_fails ''db'' issue1) = Ok ()"
  by (simp add: createPage_def getPropertiesFromIssue_def io_fst_snd fst_parseBodyRichText
      env_create_fails_def env_ok_def issue1_def Let_def)

lemma createPage_issue2:
  "fst (createPage env_create_fails ''db'' issue2) =
     Throws (ErrorObj ''APIResponseError'' ''validation_error'')"
  by (simp add: createPage_def getPropertiesFromIssue_def io_fst_snd fst_parseBodyRichText
      env_create_fails_def env_ok_def issue1_def issue2_def Let_def)

lemma createPage_issue3: "fst (createPage env_create_fails ''db'' issue3) = Ok ()"
  by (simp add: createPage_def getPropertiesFromIssue_def io_fst_snd fst_parseBodyRichText
      env_create_fails_def env_ok_def issue1_def issue3_def Let_def)

lemma create_requests_three:
  "length (create_requests (snd (createPages env_create_fails ''db'' [issue1, issue2, issue3]))) = 3"
  by (simp add: snd_createPages create_requests_createPage getPropertiesFromIssue_def io_fst_snd
      fst_parseBodyRichText env_create_fails_def env_ok_def Let_def)

text \<open>Three missing issues, the second create request fails: all three requests are sent
  and the pass throws with the text of that failure.\<close>

theorem createPages_settles_all_witness:
  "[issue1, issue2, issue3] \<noteq> [] \<and>
   rejections (map (\<lambda>issue. fst (createPage env_create_fails ''db'' issue))
                 [issue1, issue2, issue3]) =
     [ErrorObj ''APIResponseError'' ''validation_error''] \<and>
   fst (createPages env_create_fails ''db'' [issue1, issue2, issue3]) =
     Throws (new_Error
       ''Failed to create pages in Notion: APIResponseError: validation_error'') \<and>
   length (create_requests (snd (createPages env_create_fails ''db'' [issue1, issue2, issue3]))) = 3"
proof -
  have r: "rejections (map (\<lambda>issue. fst (createPage env_create_fails ''db'' issue))
                         [issue1, issue2, issue3]) =
             [ErrorObj ''APIResponseError'' ''validation_error'']"
    by (simp add: createPage_issue1 createPage_issue2 createPage_issue3)
  have t: "fst (createPages env_create_fails ''db'' [issue1, issue2, issue3]) =
             Throws (new_Error
               ''Failed to create pages in Notion: APIResponseError: validation_error'')"
    using createPages_settles_all [of env_create_fails "''db''" "[issue1, issue2, issue3]"]
    unfolding r by simp
  show ?thesis
    using r t create_requests_three by simp
qed

section \<open>run\<close>

text \<open>
  Claim C9. For every invocation whose database identifier is missing or empty, \<^verbatim>\<open>run\<close>
  throws the configuration error behind its first log line, and has issued no remote
  call.
\<close>

theorem run_without_database_id:
  assumes "notion_databaseId opts = None \<or> notion_databaseId opts = Some []"
  shows "run env opts fuel =
           (Throws (new_Error
              ''Notion database ID is not configured. Please set the notion-db input parameter.''),
            [Log Info [S ''Starting...'']]) \<and>
         remote_calls (snd (run env opts fuel)) = []"
  using assms by (auto simp: run_def truthy_def or_empty_def io_eval)

theorem run_without_database_id_witness:
  "(notion_databaseId opts_no_database = None \<or> notion_databaseId opts_no_database = Some []) \<and>
   run env_ok opts_no_database 0 =
     (Throws (new_Error
        ''Notion database ID is not configured. Please set the notion-db input parameter.''),
      [Log Info [S ''Starting...'']]) \<and>
   remote_calls (snd (run env_ok opts_no_database 0)) = []"
  using run_without_database_id [of opts_no_database env_ok 0]
  by (simp add: opts_no_database_def)

text \<open>
  Claim C10, as the code has it. For every invocation with a non-empty database identifier
  whose payload action is not \<^verbatim>\<open>opened\<close> and whose event name is not \<^verbatim>\<open>workflow_dispatch\<close>,
  \<^verbatim>\<open>run\<close> is its first log line, the issue-edited handler on the payload, and, if the
  handler returns, its last log line; whatever else the event is.
\<close>

theorem run_dispatches_edited:
  assumes "notion_databaseId opts = Some databaseId" and "databaseId \<noteq> []"
    and "action (github_payload opts) \<noteq> Some ''opened''"
    and "github_eventName opts \<noteq> ''workflow_dispatch''"
  shows "run env opts fuel =
           io_bind (core_log Info [S ''Starting...'']) (\<lambda>_.
           io_bind (handleIssueEdited env databaseId (github_payload opts)) (\<lambda>_.
           core_log Info [S ''Complete!'']))"
  using assms by (simp add: run_def truthy_def or_empty_def)

text \<open>An issue-closed event.\<close>

theorem run_dispatches_edited_witness:
  "notion_databaseId opts_closed = Some ''db'' \<and> ''db'' \<noteq> [] \<and>
   action (github_payload opts_closed) \<noteq> Some ''opened'' \<and>
   github_eventName opts_closed \<noteq> ''workflow_dispatch'' \<and>
   run env_ok opts_closed 0 =
     io_bind (core_log Info [S ''Starting...'']) (\<lambda>_.
     io_bind (handleIssueEdited env_ok ''db'' (github_payload opts_closed)) (\<lambda>_.
     core_log Info [S ''Complete!'']))"
  using run_dispatches_edited [of opts_closed "''db''" env_ok 0]
  by (simp add: opts_closed_def)

lemma remote_calls_edited_not_found:
  "remote_calls (snd (handleIssueEdited env_ok db
      \<lparr>action = a, payload_issue = Some issue1, repository_full_name = r\<rparr>)) =
     [DatabasesQuery \<lparr>database_id = db, start_cursor = None,
                      filter_ID_equals = Some 1001, page_size = Some 1\<rparr>,
      PagesCreate \<lparr>parent_database_id = db,
        properties =
          [(''Name'', Title ''Crash on start''), (''Status'', StatusSelectOption ''open''),
           (''Body'', RichText [plain_span (js ''**Steps**'')]),
           (''Assignees'', MultiSelect [''ada'']), (''Reviewer'', MultiSelect []),
           (''Link'', Url ''https://github.com/oakestra/oakestra/issues/7'')],
        children = Some [Paragraph [plain_span (js ''**Steps**'')]]\<rparr>]"
  by (simp add: handleIssueEdited_def createMissingPage_def updateFirstResult_def
      getBodyChildrenBlocks_def parsePropertiesFromPayload_def parseBodyRichText_def
      removeHTML_def trim_def isSpace_def preprocessMarkdown_def startsWith_def
      matchHeading_def isLineTerminator_def matchImage_def js_def
      io_eval env_ok_def issue1_def Let_def)

text \<open>
  Claim C10, as stated, fails: the same issue-closed event in an invocation without a
  database identifier. The action is not \<^verbatim>\<open>opened\<close>, the event is not \<^verbatim>\<open>workflow_dispatch\<close>,
  and \<^verbatim>\<open>run\<close> issues no remote call, while the issue-edited handler on this payload would
  query the ledger.
\<close>

theorem run_dispatch_counterexample:
  "action (github_payload opts_no_database) \<noteq> Some ''opened'' \<and>
   github_eventName opts_no_database \<noteq> ''workflow_dispatch'' \<and>
   remote_calls (snd (run env_ok opts_no_database 0)) = [] \<and>
   remote_calls (snd (io_bind (core_log Info [S ''Starting...'']) (\<lambda>_.
     io_bind (handleIssueEdited env_ok (or_empty (notion_databaseId opts_no_database))
                (github_payload opts_no_database)) (\<lambda>_.
     core_log Info [S ''Complete!''])))) \<noteq> []"
proof -
  have "remote_calls (snd (run env_ok opts_no_database 0)) = []"
    by (simp add: run_def truthy_def opts_no_database_def io_eval)
  moreover have "remote_calls (snd (handleIssueEdited env_ok
                    (or_empty (notion_databaseId opts_no_database))
                    (github_payload opts_no_database))) \<noteq> []"
    by (simp add: opts_no_database_def opts_closed_def remote_calls_edited_not_found)
  ultimately show ?thesis
    by (simp add: opts_no_database_def opts_closed_def io_fst_snd split: result.splits)
qed

section \<open>The edited issue without a ledger entry\<close>

lemma edited_not_found_never_returns:
  assumes "payload_issue p = Some issue"
    and "databases_query env \<lparr>database_id = db, start_cursor = None,
           filter_ID_equals = Some (issue_id issue), page_size = Some 1\<rparr> = Inr query"
    and "results query = []"
  shows "fst (handleIssueEdited env db p) \<noteq> Ok ()"
  using assms
  by (simp add: handleIssueEdited_def updateFirstResult_def io_fst_snd Let_def
      split: result.splits)

text \<open>
  Claim C4 does not hold of the code. An issue-edited event whose global id matches no
  ledger entry, with every collaborator answering: the handler logs the warning and sends
  the create-entry request with the properties and the content block of the issue, and
  then throws the \<^verbatim>\<open>TypeError\<close> of reading
  \<^verbatim>\<open>query.results[0].id\<close> in lines 197-207.
\<close>

theorem edited_not_found_throws:
  "fst (handleIssueEdited env_ok ''db'' payload_edited) = Throws (TypeError_undefined ''id'') \<and>
   warnings (snd (handleIssueEdited env_ok ''db'' payload_edited)) =
     [[S ''Could not find page with github id '', N 1001, S '', creating a new one'']] \<and>
   create_requests (snd (handleIssueEdited env_ok ''db'' payload_edited)) =
     [\<lparr>parent_database_id = ''db'',
       properties =
         [(''Name'', Title ''Crash on start''), (''Status'', StatusSelectOption ''open''),
          (''Body'', RichText [plain_span (js ''**Steps**'')]),
          (''Assignees'', MultiSelect [''ada'']), (''Reviewer'', MultiSelect []),
          (''Link'', Url ''https://github.com/oakestra/oakestra/issues/7'')],
       children = Some [Paragraph [plain_span (js ''**Steps**'')]]\<rparr>]"
  by (simp add: handleIssueEdited_def createMissingPage_def updateFirstResult_def
      getBodyChildrenBlocks_def parsePropertiesFromPayload_def parseBodyRichText_def
      removeHTML_def trim_def isSpace_def preprocessMarkdown_def startsWith_def
      matchHeading_def isLineTerminator_def matchImage_def js_def
      io_eval env_ok_def issue1_def payload_edited_def Let_def)

section \<open>The mapping builder\<close>

text \<open>
  Claim C6 does not hold of the code. A retrieved entry without a \<^verbatim>\<open>Number\<close> property makes
  the builder throw; an entry whose \<^verbatim>\<open>Number\<close> property has no value is inserted, under the
  key \<^verbatim>\<open>null\<close>.
\<close>

theorem mapping_builder_failing_inputs:
  "fst (createIssueMapping env_no_number ''db'' 1) = Throws (TypeError_undefined ''number'') \<and>
   (\<exists>m. fst (createIssueMapping env_null_number ''db'' 1) = Ok m \<and>
        m NumNull = Some ''row-2'' \<and> m (NumValue 7) = Some ''row-3'')"
  by (simp add: createIssueMapping_def getIssuesAlreadyInNotion_def truthy_def
      io_eval env_no_number_def env_null_number_def env_ok_def row_no_number_def
      row_null_number_def row_issue7_def Let_def)

text \<open>The builder only reads the ledger: all its remote calls are queries.\<close>

lemma queryAllPages_only_queries:
  "list_all is_query (remote_calls (snd (queryAllPages env db fuel cursor pages)))"
proof (induction fuel arbitrary: cursor pages)
  case 0
  then show ?case by simp
next
  case (Suc fuel)
  then show ?case
    by (simp add: io_fst_snd Let_def split: sum.splits)
qed

lemma snd_collectIssueNumbers: "snd (collectIssueNumbers ps res) = []"
  by (induction ps res rule: collectIssueNumbers.induct)
     (simp_all split: option.splits number_field.splits)

lemma createIssueMapping_only_queries:
  "list_all is_query (remote_calls (snd (createIssueMapping env db fuel)))"
  using queryAllPages_only_queries [of env db fuel None "[]"]
  by (simp add: createIssueMapping_def getIssuesAlreadyInNotion_def io_fst_snd
      snd_collectIssueNumbers split: result.splits)

text \<open>A run that ends, ends the same way on more fuel.\<close>

lemma queryAllPages_more_fuel:
  "fst (queryAllPages env db fuel cursor pages) \<noteq> Diverges \<Longrightarrow>
   queryAllPages env db (fuel + k) cursor pages = queryAllPages env db fuel cursor pages"
proof (induction fuel arbitrary: cursor pages)
  case 0
  then show ?case by simp
next
  case (Suc fuel)
  let ?params = "\<lparr>database_id = db, start_cursor = cursor,
                   filter_ID_equals = None, page_size = None\<rparr>"
  show ?case
  proof (cases "databases_query env ?params")
    case (Inl e)
    then show ?thesis by (simp add: io_eval)
  next
    case (Inr response)
    show ?thesis
    proof (cases "truthy (next_cursor response)")
      case False
      with Inr show ?thesis by (simp add: io_eval)
    next
      case True
      with Inr Suc.prems
      have "fst (queryAllPages env db fuel (next_cursor response) (pages @ results response))
              \<noteq> Diverges"
        by (simp add: io_fst_snd)
      then have "queryAllPages env db (fuel + k) (next_cursor response) (pages @ results response)
                   = queryAllPages env db fuel (next_cursor response) (pages @ results response)"
        by (rule Suc.IH)
      with Inr True show ?thesis by (simp add: io_eval)
    qed
  qed
qed

lemma getIssuesAlreadyInNotion_more_fuel:
  assumes "fst (getIssuesAlreadyInNotion env db fuel) \<noteq> Diverges"
  shows "getIssuesAlreadyInNotion env db (fuel + k) = getIssuesAlreadyInNotion env db fuel"
proof -
  from assms have "fst (queryAllPages env db fuel None []) \<noteq> Diverges"
    by (auto simp: getIssuesAlreadyInNotion_def io_fst_snd split: result.splits)
  then show ?thesis
    by (simp add: getIssuesAlreadyInNotion_def queryAllPages_more_fuel)
qed

lemma createIssueMapping_more_fuel:
  assumes "fst (createIssueMapping env db fuel) \<noteq> Diverges"
  shows "createIssueMapping env db (fuel + k) = createIssueMapping env db fuel"
proof -
  from assms have "fst (getIssuesAlreadyInNotion env db fuel) \<noteq> Diverges"
    by (auto simp: createIssueMapping_def io_fst_snd split: result.splits)
  then show ?thesis
    by (simp add: createIssueMapping_def getIssuesAlreadyInNotion_more_fuel)
qed

lemma queryAllPages_paginates:
  "paginates env db cursor rs \<Longrightarrow> length rs \<le> fuel \<Longrightarrow>
   fst (queryAllPages env db fuel cursor pages) = Ok (pages @ concat (map results rs))"
proof (induction rs arbitrary: cursor fuel pages)
  case Nil
  then show ?case by simp
next
  case (Cons r rs)
  from Cons.prems(2) obtain fuel' where fuel: "fuel = Suc fuel'" and le: "length rs \<le> fuel'"
    by (cases fuel) auto
  from Cons.prems(1) have q: "databases_query env \<lparr>database_id = db, start_cursor = cursor,
                            filter_ID_equals = None, page_size = None\<rparr> = Inr r"
    by simp
  show ?case
  proof (cases "rs = []")
    case True
    with Cons.prems(1) q show ?thesis
      by (simp add: fuel io_fst_snd)
  next
    case False
    with Cons.prems(1) have t: "truthy (next_cursor r)"
      and p: "paginates env db (next_cursor r) rs"
      by simp_all
    from Cons.IH [OF p le] q t show ?thesis
      by (simp add: fuel io_fst_snd)
  qed
qed

lemma collectIssueNumbers_eq:
  "collectIssueNumbers ps res =
     (if list_all has_Number ps then io_return (res @ entries_with_number ps)
      else io_throw (TypeError_undefined ''number''))"
  by (induction ps res rule: collectIssueNumbers.induct)
     (auto simp: has_Number_def split: option.splits number_field.splits)

lemma dom_setAll: "dom (setAll m xs) = dom m \<union> pin_issueNumber ` set xs"
  by (induction xs arbitrary: m) auto

lemma fst_createIssueMapping_paginates:
  assumes "paginates env db None rs" and "length rs \<le> fuel"
  shows "fst (createIssueMapping env db fuel) =
           (if list_all has_Number (concat (map results rs))
            then Ok (setAll Map.empty (entries_with_number (concat (map results rs))))
            else Throws (TypeError_undefined ''number''))"
  using queryAllPages_paginates [OF assms, of "[]"]
  by (simp add: createIssueMapping_def getIssuesAlreadyInNotion_def io_fst_snd
      collectIssueNumbers_eq)

text \<open>
  Claim C8. Let the ledger answer the pagination with the page responses \<open>rs\<close>. Then any two
  runs of the mapping builder (on fuel that covers the pages) return, and end alike in
  result and trace. What they yield is fixed by the pages: the mapping that holds the
  entries of the pages, set in order; two runs yield two equal mappings, with the same key
  set and the same entry id for every key. (Where a page has properties without a \<^verbatim>\<open>Number\<close>
  property, both runs throw the same error.)
\<close>

theorem createIssueMapping_idempotent:
  assumes "paginates env db None rs" and "length rs \<le> fuel1" and "length rs \<le> fuel2"
  shows "createIssueMapping env db fuel1 = createIssueMapping env db fuel2 \<and>
         fst (createIssueMapping env db fuel1) =
           (if list_all has_Number (concat (map results rs))
            then Ok (setAll Map.empty (entries_with_number (concat (map results rs))))
            else Throws (TypeError_undefined ''number'')) \<and>
         (\<forall>m1 m2. fst (createIssueMapping env db fuel1) = Ok m1 \<longrightarrow>
                  fst (createIssueMapping env db fuel2) = Ok m2 \<longrightarrow>
                  dom m1 = dom m2 \<and> (\<forall>k. m1 k = m2 k))"
proof -
  let ?n = "length rs"
  have n: "fst (createIssueMapping env db ?n) \<noteq> Diverges"
    using fst_createIssueMapping_paginates [OF assms(1), of ?n] by simp
  obtain k1 k2 where k: "fuel1 = ?n + k1" "fuel2 = ?n + k2"
    using assms(2,3) by (metis le_Suc_ex)
  have e1: "createIssueMapping env db fuel1 = createIssueMapping env db ?n"
    unfolding k using n by (rule createIssueMapping_more_fuel)
  have e2: "createIssueMapping env db fuel2 = createIssueMapping env db ?n"
    unfolding k using n by (rule createIssueMapping_more_fuel)
  show ?thesis
    using fst_createIssueMapping_paginates [OF assms(1,2)] by (auto simp: e1 e2)
qed

text \<open>A ledger of two pages, read on fuel 2 and on fuel 5.\<close>

theorem createIssueMapping_idempotent_witness:
  "paginates env_two_pages ''db'' None [ledger_page1, ledger_page2] \<and>
   length [ledger_page1, ledger_page2] \<le> 2 \<and> length [ledger_page1, ledger_page2] \<le> 5 \<and>
   createIssueMapping env_two_pages ''db'' 2 = createIssueMapping env_two_pages ''db'' 5 \<and>
   fst (createIssueMapping env_two_pages ''db'' 2) =
     Ok (setAll Map.empty
           [\<lparr>pin_pageId = ''row-3'', pin_issueNumber = NumValue 7\<rparr>,
            \<lparr>pin_pageId = ''row-4'', pin_issueNumber = NumValue 8\<rparr>])"
proof -
  have p: "paginates env_two_pages ''db'' None [ledger_page1, ledger_page2]"
    by (simp add: env_two_pages_def env_ok_def ledger_page1_def ledger_page2_def truthy_def)
  have l: "length [ledger_page1, ledger_page2] \<le> 2" "length [ledger_page1, ledger_page2] \<le> 5"
    by simp_all
  have h: "list_all has_Number (concat (map results [ledger_page1, ledger_page2]))"
    by (simp add: ledger_page1_def ledger_page2_def row_issue7_def has_Number_def)
  have e: "entries_with_number (concat (map results [ledger_page1, ledger_page2])) =
             [\<lparr>pin_pageId = ''row-3'', pin_issueNumber = NumValue 7\<rparr>,
              \<lparr>pin_pageId = ''row-4'', pin_issueNumber = NumValue 8\<rparr>]"
    by (simp add: ledger_page1_def ledger_page2_def row_issue7_def)
  note th = createIssueMapping_idempotent [OF p l]
  from th have same: "createIssueMapping env_two_pages ''db'' 2 =
                        createIssueMapping env_two_pages ''db'' 5"
    by (rule conjunct1)
  from th [THEN conjunct2, THEN conjunct1] h
  have "fst (createIssueMapping env_two_pages ''db'' 2) =
          Ok (setAll Map.empty
                (entries_with_number (concat (map results [ledger_page1, ledger_page2]))))"
    by (simp only: if_True)
  then have "fst (createIssueMapping env_two_pages ''db'' 2) =
     Ok (setAll Map.empty
           [\<lparr>pin_pageId = ''row-3'', pin_issueNumber = NumValue 7\<rparr>,
            \<lparr>pin_pageId = ''row-4'', pin_issueNumber = NumValue 8\<rparr>])"
    by (simp only: e)
  with p l same show ?thesis
    by (intro conjI)
qed

section \<open>The rich-text converter\<close>

text \<open>
  Claim C5. For every body the converter returns a span sequence and throws nothing. If
  the structured parser throws, the converter logs a warning and returns, when the
  tag-stripped body is empty, the empty sequence, and otherwise one plain span whose
  content is the tag-stripped body (not the markdown-processed one) cut to its first 2000
  code units.
\<close>

theorem parseBodyRichText_fallback:
  "(\<exists>spans. fst (parseBodyRichText env b) = Ok spans) \<and>
   (\<forall>e. markdownToRichText env (preprocessMarkdown (removeHTML b)) = Inl e \<longrightarrow>
      parseBodyRichText env b =
        (Ok (if removeHTML b = [] then [] else [plain_span (take 2000 (removeHTML b))]),
         [Log Warning [S ''Failed to parse markdown: '', S (errorMessage e)]]) \<and>
      length (take 2000 (removeHTML b)) \<le> 2000)"
  by (simp add: prod_eq_iff fst_parseBodyRichText snd_parseBodyRichText split: sum.splits)

lemma removeHTML_paragraph: "removeHTML (Some (js ''<p># Title</p>'')) = js ''# Title''"
  by (simp add: removeHTML_def trim_def isSpace_def js_def)

lemma removeHTML_break: "removeHTML (Some (js ''<br>'')) = []"
  by (simp add: removeHTML_def trim_def isSpace_def js_def)

theorem parseBodyRichText_fallback_witness:
  "markdownToRichText env_parser_throws
     (preprocessMarkdown (removeHTML (Some (js ''<p># Title</p>'')))) =
     Inl (new_Error ''Unexpected token'') \<and>
   fst (parseBodyRichText env_parser_throws (Some (js ''<p># Title</p>''))) =
     Ok [plain_span (js ''# Title'')] \<and>
   markdownToRichText env_parser_throws
     (preprocessMarkdown (removeHTML (Some (js ''<br>'')))) =
     Inl (new_Error ''Unexpected token'') \<and>
   fst (parseBodyRichText env_parser_throws (Some (js ''<br>''))) = Ok []"
proof -
  have p: "markdownToRichText env_parser_throws t = Inl (new_Error ''Unexpected token'')" for t
    by (simp add: env_parser_throws_def env_ok_def)
  have "js ''# Title'' \<noteq> []" and "take 2000 (js ''# Title'') = js ''# Title''"
    by (simp_all add: js_def)
  with parseBodyRichText_fallback [of env_parser_throws "Some (js ''<p># Title</p>'')"]
    parseBodyRichText_fallback [of env_parser_throws "Some (js ''<br>'')"]
  show ?thesis
    by (simp add: p removeHTML_paragraph removeHTML_break)
qed

subsection \<open>Headings\<close>

text \<open>Text without \<^verbatim>\<open>#\<close> passes the heading rewrite unchanged; a heading line at a line start
  is matched as a whole.\<close>

lemma js_stars: "js ''**'' = [ch_star, ch_star]"
  by (simp add: js_def)

lemma isSpace_not_hash: "isSpace c \<Longrightarrow> c \<noteq> ch_hash"
  by (auto simp: isSpace_def)

lemma matchHeading_no_hash: "c \<noteq> ch_hash \<Longrightarrow> matchHeading (c # cs) = None"
  by (simp add: matchHeading_def)

lemma headingsToBold_no_hash:
  "ch_hash \<notin> set pre \<Longrightarrow>
   headingsToBold bol (pre @ rest) =
     pre @ headingsToBold (if pre = [] then bol else isLineTerminator (last pre)) rest"
proof (induction pre arbitrary: bol)
  case Nil
  then show ?case by simp
next
  case (Cons c pre)
  then have "matchHeading (c # pre @ rest) = None"
    by (simp add: matchHeading_no_hash)
  with Cons show ?case by simp
qed

lemma takeWhile_prefix_all:
  "\<forall>x\<in>set xs. P x \<Longrightarrow> ys = [] \<or> \<not> P (hd ys) \<Longrightarrow> takeWhile P (xs @ ys) = xs"
  by (cases ys) (simp_all add: takeWhile_append2)

lemma dropWhile_prefix_all:
  "\<forall>x\<in>set xs. P x \<Longrightarrow> ys = [] \<or> \<not> P (hd ys) \<Longrightarrow> dropWhile P (xs @ ys) = ys"
  by (cases ys) (simp_all add: dropWhile_append2)

lemma matchHeading_heading:
  assumes hs: "hs \<noteq> []" "set hs \<subseteq> {ch_hash}"
    and ws: "ws \<noteq> []" "\<forall>c\<in>set ws. isSpace c"
    and t: "t \<noteq> []" "\<not> isSpace (hd t)" "\<forall>c\<in>set t. \<not> isLineTerminator c"
    and post: "post = [] \<or> isLineTerminator (hd post)"
  shows "matchHeading (hs @ ws @ t @ post) = Some (t, post)"
proof -
  from ws have "hd (ws @ t @ post) \<noteq> ch_hash"
    by (cases ws) (auto dest: isSpace_not_hash)
  then have nh: "ws @ t @ post = [] \<or> \<not> hd (ws @ t @ post) = ch_hash"
    by simp
  from hs have ah: "\<forall>x\<in>set hs. x = ch_hash"
    by auto
  have h1: "takeWhile (\<lambda>x. x = ch_hash) (hs @ ws @ t @ post) = hs"
    using ah nh by (rule takeWhile_prefix_all)
  have h2: "dropWhile (\<lambda>x. x = ch_hash) (hs @ ws @ t @ post) = ws @ t @ post"
    using ah nh by (rule dropWhile_prefix_all)
  from t have ns: "t @ post = [] \<or> \<not> isSpace (hd (t @ post))"
    by (cases t) simp_all
  have w1: "takeWhile isSpace (ws @ t @ post) = ws"
    using ws(2) ns by (rule takeWhile_prefix_all)
  have w2: "dropWhile isSpace (ws @ t @ post) = t @ post"
    using ws(2) ns by (rule dropWhile_prefix_all)
  from post have np: "post = [] \<or> \<not> \<not> isLineTerminator (hd post)"
    by simp
  have g1: "takeWhile (\<lambda>x. \<not> isLineTerminator x) (t @ post) = t"
    using t(3) np by (rule takeWhile_prefix_all)
  have g2: "dropWhile (\<lambda>x. \<not> isLineTerminator x) (t @ post) = post"
    using t(3) np by (rule dropWhile_prefix_all)
  show ?thesis
    using hs(1) ws(1) t(1) by (simp add: matchHeading_def Let_def h1 h2 w1 w2 g1 g2)
qed

lemma headingsToBold_heading:
  assumes "hs \<noteq> []" "set hs \<subseteq> {ch_hash}"
    and "ws \<noteq> []" "\<forall>c\<in>set ws. isSpace c"
    and "t \<noteq> []" "\<not> isSpace (hd t)" "\<forall>c\<in>set t. \<not> isLineTerminator c"
    and "post = [] \<or> isLineTerminator (hd post)"
  shows "headingsToBold True (hs @ ws @ t @ post) =
           js ''**'' @ t @ js ''**'' @ headingsToBold False post"
proof -
  from assms(1) obtain c cs where "hs @ ws @ t @ post = c # cs"
    by (cases hs) auto
  moreover have "matchHeading (hs @ ws @ t @ post) = Some (t, post)"
    using assms by (rule matchHeading_heading)
  ultimately show ?thesis
    by simp
qed

lemma set_tl_subset: "set (tl xs) \<subseteq> set xs"
  by (cases xs) auto

lemma matchHeading_subset:
  assumes "matchHeading s = Some (g, rest)"
  shows "set g \<subseteq> set s \<and> set rest \<subseteq> set s"
proof -
  let ?r1 = "dropWhile (\<lambda>x. x = ch_hash) s"
  let ?ws = "takeWhile isSpace ?r1"
  let ?r2 = "dropWhile isSpace ?r1"
  have r1: "set ?r1 \<subseteq> set s"
    by (auto dest: set_dropWhileD)
  have r2: "set ?r2 \<subseteq> set s"
    using r1 by (auto dest: set_dropWhileD)
  have "set ?ws \<subseteq> set ?r1"
    by (auto dest: set_takeWhileD)
  with r1 set_tl_subset [of ?ws] have ws: "set (tl ?ws) \<subseteq> set s"
    by blast
  show ?thesis
  proof (cases "?r2 = []")
    case False
    with assms have "g = takeWhile (\<lambda>x. \<not> isLineTerminator x) ?r2"
      and "rest = dropWhile (\<lambda>x. \<not> isLineTerminator x) ?r2"
      by (auto simp: matchHeading_def Let_def split: if_splits)
    with r2 show ?thesis
      by (auto dest: set_takeWhileD set_dropWhileD)
  next
    case True
    with assms obtain x xs where d: "dropWhile isLineTerminator (rev (tl ?ws)) = x # xs"
      and g: "g = [x]" and rest: "rest = rev (takeWhile isLineTerminator (rev (tl ?ws)))"
      by (auto simp: matchHeading_def Let_def split: if_splits list.splits)
    have "x \<in> set (dropWhile isLineTerminator (rev (tl ?ws)))"
      by (simp add: d)
    then have "x \<in> set (tl ?ws)"
      by (auto dest: set_dropWhileD)
    moreover have "set rest \<subseteq> set (tl ?ws)"
      unfolding rest by (auto dest: set_takeWhileD)
    ultimately show ?thesis
      using ws g by auto
  qed
qed

lemma set_headingsToBold: "set (headingsToBold bol s) \<subseteq> set s \<union> {ch_star}"
proof (induction bol s rule: headingsToBold.induct)
  case (1 bol)
  then show ?case by simp
next
  case (2 bol c cs)
  show ?case
  proof (cases "if bol then matchHeading (c # cs) else None")
    case None
    with 2 show ?thesis by auto
  next
    case (Some x)
    obtain g rest where x: "x = (g, rest)"
      by (cases x)
    from Some x have m: "matchHeading (c # cs) = Some (g, rest)"
      by (simp split: if_splits)
    from 2(2) [OF Some x [symmetric]] have "set (headingsToBold False rest) \<subseteq> set rest \<union> {ch_star}" .
    with matchHeading_subset [OF m] Some x show ?thesis
      by (auto simp: js_stars)
  qed
qed

lemma matchImage_no_bang: "ch_bang \<notin> set s \<Longrightarrow> matchImage s = None"
  by (auto simp: matchImage_def split: list.splits)

lemma replaceImages_no_bang: "ch_bang \<notin> set s \<Longrightarrow> replaceImages s = s"
  by (induction s) (simp_all add: matchImage_no_bang)

lemma matchImage_subset:
  assumes "matchImage s = Some (alt, rest)"
  shows "set alt \<subseteq> set s \<and> set rest \<subseteq> set s"
proof -
  from assms obtain b l r1 rb lp r3 rp where
    s: "s = b # l # r1" and
    alt: "alt = takeWhile (\<lambda>x. x \<noteq> ch_rbracket) r1" and
    r2: "dropWhile (\<lambda>x. x \<noteq> ch_rbracket) r1 = rb # lp # r3" and
    r4: "dropWhile (\<lambda>x. x \<noteq> ch_rparen) r3 = rp # rest"
    by (auto simp: matchImage_def split: list.splits if_splits)
  have "set rest \<subseteq> set (dropWhile (\<lambda>x. x \<noteq> ch_rparen) r3)"
    by (auto simp: r4)
  then have "set rest \<subseteq> set r3"
    by (auto dest: set_dropWhileD)
  moreover have "set r3 \<subseteq> set (dropWhile (\<lambda>x. x \<noteq> ch_rbracket) r1)"
    by (auto simp: r2)
  then have "set r3 \<subseteq> set r1"
    by (auto dest: set_dropWhileD)
  ultimately show ?thesis
    using s alt by (auto dest: set_takeWhileD)
qed

lemma set_replaceImages: "set (replaceImages s) \<subseteq> set s \<union> set (js '' (image)'')"
proof (induction s rule: replaceImages.induct)
  case 1
  then show ?case by simp
next
  case (2 c cs)
  show ?case
  proof (cases "matchImage (c # cs)")
    case None
    with 2 show ?thesis by auto
  next
    case (Some x)
    obtain alt rest where x: "x = (alt, rest)"
      by (cases x)
    from 2(2) [OF Some x [symmetric]]
    have "set (replaceImages rest) \<subseteq> set rest \<union> set (js '' (image)'')" .
    with matchImage_subset [of "c # cs" alt rest] Some x show ?thesis
      by auto
  qed
qed

lemma hash_not_in_image: "ch_hash \<notin> set (js '' (image)'')"
  by (simp add: js_def)


lemma takeWhile_append_left: "dropWhile P xs \<noteq> [] \<Longrightarrow> takeWhile P (xs @ ys) = takeWhile P xs"
  by (induction xs) auto

lemma dropWhile_append_left:
  "dropWhile P xs \<noteq> [] \<Longrightarrow> dropWhile P (xs @ ys) = dropWhile P xs @ ys"
  by (induction xs) auto

lemma last_dropWhile: "dropWhile P xs \<noteq> [] \<Longrightarrow> last (dropWhile P xs) = last xs"
  by (induction xs) auto

text \<open>A match inside a text that ends with a line terminator does not look behind it.\<close>

lemma matchHeading_append:
  assumes "isLineTerminator (last pre)"
    and "dropWhile isSpace (dropWhile (\<lambda>x. x = ch_hash) pre) \<noteq> []"
  shows "matchHeading (pre @ rest) =
           map_option (\<lambda>(g, r). (g, r @ rest)) (matchHeading pre)"
    and "matchHeading pre = Some (g, r) \<Longrightarrow> r \<noteq> [] \<and> last r = last pre"
proof -
  let ?h = "\<lambda>x. x = ch_hash"
  let ?n = "\<lambda>x. \<not> isLineTerminator x"
  let ?r1 = "dropWhile ?h pre"
  let ?r2 = "dropWhile isSpace ?r1"
  from assms(2) have r1: "?r1 \<noteq> []"
    by (metis dropWhile.simps(1))
  have h1: "takeWhile ?h (pre @ rest) = takeWhile ?h pre"
    using r1 by (rule takeWhile_append_left)
  have h2: "dropWhile ?h (pre @ rest) = ?r1 @ rest"
    using r1 by (rule dropWhile_append_left)
  have w1: "takeWhile isSpace (?r1 @ rest) = takeWhile isSpace ?r1"
    using assms(2) by (rule takeWhile_append_left)
  have w2: "dropWhile isSpace (?r1 @ rest) = ?r2 @ rest"
    using assms(2) by (rule dropWhile_append_left)
  have "last ?r2 = last ?r1"
    using assms(2) by (rule last_dropWhile)
  also have "\<dots> = last pre"
    using r1 by (rule last_dropWhile)
  finally have l2: "last ?r2 = last pre" .
  have "last ?r2 \<in> set ?r2"
    using assms(2) by (rule last_in_set)
  moreover have "isLineTerminator (last ?r2)"
    using l2 assms(1) by simp
  ultimately have g: "dropWhile ?n ?r2 \<noteq> []"
    by (auto simp: dropWhile_eq_Nil_conv)
  have g1: "takeWhile ?n (?r2 @ rest) = takeWhile ?n ?r2"
    using g by (rule takeWhile_append_left)
  have g2: "dropWhile ?n (?r2 @ rest) = dropWhile ?n ?r2 @ rest"
    using g by (rule dropWhile_append_left)
  show "matchHeading (pre @ rest) =
           map_option (\<lambda>(g, r). (g, r @ rest)) (matchHeading pre)"
    using assms(2) by (simp add: matchHeading_def Let_def h1 h2 w1 w2 g1 g2)
  assume "matchHeading pre = Some (g, r)"
  with assms(2) have "r = dropWhile ?n ?r2"
    by (auto simp: matchHeading_def Let_def split: if_splits)
  with g l2 show "r \<noteq> [] \<and> last r = last pre"
    by (simp add: last_dropWhile)
qed

text \<open>The text before a line start is rewritten on its own, unless its scan ends in an
  open marker.\<close>

lemma headingsToBold_append:
  assumes "pre \<noteq> []" and "isLineTerminator (last pre)" and "\<not> markerOpen bol pre"
  shows "headingsToBold bol (pre @ rest) = headingsToBold bol pre @ headingsToBold True rest"
  using assms
proof (induction bol pre rule: markerOpen.induct)
  case (1 bol)
  then show ?case by simp
next
  case (2 bol c cs)
  let ?pre = "c # cs"
  show ?case
  proof (cases "bol \<and> c = ch_hash")
    case True
    with 2(5) have far: "dropWhile isSpace (dropWhile (\<lambda>x. x = ch_hash) ?pre) \<noteq> []"
      by (auto split: if_splits)
    note m1 = matchHeading_append(1) [OF 2(4) far, of rest]
    note m2 = matchHeading_append(2) [OF 2(4) far]
    show ?thesis
    proof (cases "matchHeading ?pre")
      case None
      with True 2(5) far have no: "\<not> markerOpen (isLineTerminator c) cs"
        by (simp split: if_splits)
      from None m1 have n2: "matchHeading (c # cs @ rest) = None"
        by simp
      from True have "\<not> isLineTerminator c"
        by (simp add: isLineTerminator_def)
      with 2(4) have cs: "cs \<noteq> []" "isLineTerminator (last cs)"
        by (auto split: if_splits)
      from 2(1) [OF _ _ cs no] True None far
      have "headingsToBold (isLineTerminator c) (cs @ rest) =
              headingsToBold (isLineTerminator c) cs @ headingsToBold True rest"
        by simp
      with True None n2 show ?thesis
        by simp
    next
      case (Some x)
      obtain g r where x: "x = (g, r)"
        by (cases x)
      from Some x m2 [of g r] 2(4) have r: "r \<noteq> []" "isLineTerminator (last r)"
        by simp_all
      from True Some x 2(5) far have no: "\<not> markerOpen False r"
        by (simp split: if_splits)
      from Some x m1 have s2: "matchHeading (c # cs @ rest) = Some (g, r @ rest)"
        by simp
      from 2(2) [OF _ _ x [symmetric] r no] True Some x far
      have "headingsToBold False (r @ rest) = headingsToBold False r @ headingsToBold True rest"
        by simp
      with True Some x s2 show ?thesis
        by simp
    qed
  next
    case False
    then have n1: "(if bol then matchHeading ?pre else None) = None"
      and n2: "(if bol then matchHeading (c # cs @ rest) else None) = None"
      by (auto simp: matchHeading_def)
    from False 2(5) n1 have no: "\<not> markerOpen (isLineTerminator c) cs"
      by (auto split: if_splits)
    have e1: "headingsToBold bol (c # cs) = c # headingsToBold (isLineTerminator c) cs"
      using n1 by simp
    have e2: "headingsToBold bol ((c # cs) @ rest) =
                c # headingsToBold (isLineTerminator c) (cs @ rest)"
      using n2 by simp
    show ?thesis
    proof (cases "cs = []")
      case True
      with 2(4) show ?thesis
        unfolding e1 e2 by simp
    next
      case nonempty: False
      with 2(4) have cs: "cs \<noteq> []" "isLineTerminator (last cs)"
        by simp_all
      from False have "\<not> (bol \<and> c = ch_hash \<and>
          dropWhile isSpace (dropWhile (\<lambda>x. x = ch_hash) (c # cs)) = [])"
        by blast
      from 2(1) [OF this n1 cs no]
      have "headingsToBold (isLineTerminator c) (cs @ rest) =
              headingsToBold (isLineTerminator c) cs @ headingsToBold True rest" .
      then show ?thesis
        unfolding e1 e2 by simp
    qed
  qed
qed


lemma matchHeading_suffix:
  assumes "matchHeading s = Some (g, r)"
  shows "\<exists>a. s = a @ r"
proof -
  let ?h = "\<lambda>x. x = ch_hash"
  let ?n = "\<lambda>x. \<not> isLineTerminator x"
  let ?r1 = "dropWhile ?h s"
  let ?ws = "takeWhile isSpace ?r1"
  let ?r2 = "dropWhile isSpace ?r1"
  have s: "s = takeWhile ?h s @ ?ws @ ?r2"
    by simp
  show ?thesis
  proof (cases "?r2 = []")
    case False
    with assms have "r = dropWhile ?n ?r2"
      by (auto simp: matchHeading_def Let_def split: if_splits)
    then have "?r2 = takeWhile ?n ?r2 @ r"
      by simp
    with s have "s = (takeWhile ?h s @ ?ws @ takeWhile ?n ?r2) @ r"
      by (metis append.assoc)
    then show ?thesis ..
  next
    case True
    with assms have r: "r = rev (takeWhile isLineTerminator (rev (tl ?ws)))"
      and ne: "?ws \<noteq> []"
      by (auto simp: matchHeading_def Let_def split: if_splits list.splits)
    have "rev (tl ?ws) =
            takeWhile isLineTerminator (rev (tl ?ws)) @ dropWhile isLineTerminator (rev (tl ?ws))"
      by simp
    then have "tl ?ws = rev (dropWhile isLineTerminator (rev (tl ?ws))) @ r"
      unfolding r by (metis rev_append rev_rev_ident)
    moreover from ne have "?ws = hd ?ws # tl ?ws"
      by simp
    ultimately have "?ws = (hd ?ws # rev (dropWhile isLineTerminator (rev (tl ?ws)))) @ r"
      by (metis append_Cons)
    with s True have "s = (takeWhile ?h s @ hd ?ws # rev (dropWhile isLineTerminator (rev (tl ?ws)))) @ r"
      by (metis append.assoc append_Nil2)
    then show ?thesis ..
  qed
qed

text \<open>No marker is open behind a text that, white space apart, does not end with \<^verbatim>\<open>#\<close>; in
  particular behind a text without \<^verbatim>\<open>#\<close>.\<close>

lemma endsWithHash_suffix: "\<not> endsWithHash (a @ r) \<Longrightarrow> \<not> endsWithHash r"
proof (cases "dropWhile isSpace (rev r) = []")
  case True
  show ?thesis
    unfolding endsWithHash_def True by simp
next
  case False
  then have "dropWhile isSpace (rev r @ rev a) = dropWhile isSpace (rev r) @ rev a"
    by (rule dropWhile_append_left)
  moreover assume "\<not> endsWithHash (a @ r)"
  ultimately show ?thesis
    using False by (auto simp: endsWithHash_def split: list.splits)
qed

lemma markerOpen_endsWithHash: "\<not> endsWithHash s \<Longrightarrow> \<not> markerOpen bol s"
proof (induction bol s rule: markerOpen.induct)
  case (1 bol)
  then show ?case by simp
next
  case (2 bol c cs)
  let ?h = "\<lambda>x. x = ch_hash"
  let ?s = "c # cs"
  have far: "\<not> (bol \<and> c = ch_hash \<and> dropWhile isSpace (dropWhile ?h ?s) = [])"
  proof
    assume a: "bol \<and> c = ch_hash \<and> dropWhile isSpace (dropWhile ?h ?s) = []"
    then have sp: "\<And>x. x \<in> set (rev (dropWhile ?h ?s)) \<Longrightarrow> isSpace x"
      by (simp add: dropWhile_eq_Nil_conv)
    have "rev ?s = rev (dropWhile ?h ?s) @ rev (takeWhile ?h ?s)"
      by (metis rev_append takeWhile_dropWhile_id)
    then have d: "dropWhile isSpace (rev ?s) = dropWhile isSpace (rev (takeWhile ?h ?s))"
      using sp by (simp only: dropWhile_append2)
    from a have ne: "takeWhile ?h ?s \<noteq> []"
      by simp
    then have "last (takeWhile ?h ?s) \<in> set (takeWhile ?h ?s)"
      by (rule last_in_set)
    then have l: "last (takeWhile ?h ?s) = ch_hash"
      by (auto dest: set_takeWhileD)
    from ne obtain ys where r: "rev (takeWhile ?h ?s) = ch_hash # ys"
      by (metis l rev.simps(2) rev_rev_ident snoc_eq_iff_butlast append_butlast_last_id
          rev_append singleton_rev_conv rev_singleton_conv append_Cons append_Nil)
    have "\<not> isSpace ch_hash"
      by (simp add: isSpace_def)
    with d r have "endsWithHash ?s"
      by (simp add: endsWithHash_def)
    with 2(3) show False ..
  qed
  show ?case
  proof (cases "if bol then matchHeading ?s else None")
    case None
    from 2(3) endsWithHash_suffix [of "[c]" cs] have "\<not> endsWithHash cs"
      by simp
    from 2(1) [OF far None this] far None show ?thesis
      by simp
  next
    case (Some x)
    obtain g r where x: "x = (g, r)"
      by (cases x)
    from Some x have "matchHeading ?s = Some (g, r)"
      by (simp split: if_splits)
    then obtain a where "?s = a @ r"
      using matchHeading_suffix by blast
    with 2(3) endsWithHash_suffix [of a r] have "\<not> endsWithHash r"
      by simp
    from 2(2) [OF far Some x [symmetric] this] far Some x show ?thesis
      by simp
  qed
qed

lemma markerOpen_no_hash: "ch_hash \<notin> set s \<Longrightarrow> \<not> markerOpen bol s"
proof (rule markerOpen_endsWithHash)
  assume "ch_hash \<notin> set s"
  then have "ch_hash \<notin> set (dropWhile isSpace (rev s))"
    by (auto dest: set_dropWhileD)
  then show "\<not> endsWithHash s"
    by (auto simp: endsWithHash_def split: list.splits)
qed


text \<open>
  Claim C7, as the code has it. Let the tag-stripped, comment-free text of a body be
  \<open>pre @ hs @ ws @ t @ post\<close> with a heading line in it: \<open>hs\<close> is a run of \<^verbatim>\<open>#\<close> at a line start
  (\<open>pre\<close> is empty or ends with a line terminator), \<open>ws\<close> is white space, and \<open>t\<close> is a text
  that starts with no white space and runs to the end of its line. Let the scan of \<open>pre\<close> not
  end inside a heading marker without text (it does not when \<open>pre\<close>, white space apart,
  does not end with \<^verbatim>\<open>#\<close>). Then the heading rewrite of line 26 puts \<^verbatim>\<open>**t**\<close> in the place of
  the line, dropping the marker run and the level, and rewrites the text before and the
  text behind on their own. The text handed to the structured parser is the image rewrite
  of line 29 of that result, and is that result itself when the text holds no \<^verbatim>\<open>!\<close>. A \<^verbatim>\<open>#\<close>
  inside \<open>t\<close> is kept: if the rewritten text before, \<open>t\<close> and the rewritten text behind hold
  no \<^verbatim>\<open>#\<close>, the text handed to the parser holds none. When the parser returns, the output of
  the converter is the parser's output for that text.
\<close>

theorem heading_rewritten:
  assumes c: "removeComments (removeHTML b) = pre @ hs @ ws @ t @ post"
    and pre: "pre = [] \<or> isLineTerminator (last pre)" "\<not> markerOpen True pre"
    and hs: "hs \<noteq> []" "set hs \<subseteq> {ch_hash}"
    and ws: "ws \<noteq> []" "\<forall>c\<in>set ws. isSpace c"
    and t: "t \<noteq> []" "\<not> isSpace (hd t)" "\<forall>c\<in>set t. \<not> isLineTerminator c"
    and post: "post = [] \<or> isLineTerminator (hd post)"
  shows "headingsToBold True (removeComments (removeHTML b)) =
           headingsToBold True pre @ js ''**'' @ t @ js ''**'' @ headingsToBold False post \<and>
         preprocessMarkdown (removeHTML b) =
           replaceImages
             (headingsToBold True pre @ js ''**'' @ t @ js ''**'' @ headingsToBold False post) \<and>
         (ch_bang \<notin> set (removeComments (removeHTML b)) \<longrightarrow>
            preprocessMarkdown (removeHTML b) =
              headingsToBold True pre @ js ''**'' @ t @ js ''**'' @ headingsToBold False post) \<and>
         (ch_hash \<notin> set (headingsToBold True pre) \<union> set t \<union> set (headingsToBold False post) \<longrightarrow>
            ch_hash \<notin> set (preprocessMarkdown (removeHTML b))) \<and>
         (\<forall>spans. markdownToRichText env (preprocessMarkdown (removeHTML b)) = Inr spans \<longrightarrow>
            parseBodyRichText env b = (Ok spans, []))"
proof (intro conjI impI allI)
  let ?out = "headingsToBold True pre @ js ''**'' @ t @ js ''**'' @ headingsToBold False post"
  have "headingsToBold True (pre @ hs @ ws @ t @ post) =
          headingsToBold True pre @ headingsToBold True (hs @ ws @ t @ post)"
  proof (cases "pre = []")
    case True
    then show ?thesis by simp
  next
    case False
    with pre show ?thesis
      by (simp add: headingsToBold_append)
  qed
  also have "headingsToBold True (hs @ ws @ t @ post) =
               js ''**'' @ t @ js ''**'' @ headingsToBold False post"
    using hs ws t post by (rule headingsToBold_heading)
  finally show h: "headingsToBold True (removeComments (removeHTML b)) = ?out"
    by (simp add: c)
  then show p: "preprocessMarkdown (removeHTML b) = replaceImages ?out"
    by (simp add: preprocessMarkdown_def)
  {
    assume "ch_bang \<notin> set (removeComments (removeHTML b))"
    with set_headingsToBold [of True "removeComments (removeHTML b)"]
    have "ch_bang \<notin> set (headingsToBold True (removeComments (removeHTML b)))"
      by auto
    then have "replaceImages ?out = ?out"
      unfolding h by (rule replaceImages_no_bang)
    with p show "preprocessMarkdown (removeHTML b) = ?out"
      by simp
  }
  {
    assume "ch_hash \<notin> set (headingsToBold True pre) \<union> set t \<union> set (headingsToBold False post)"
    then have "ch_hash \<notin> set ?out"
      by (auto simp: js_stars)
    with set_replaceImages [of ?out] hash_not_in_image
    show "ch_hash \<notin> set (preprocessMarkdown (removeHTML b))"
      unfolding p by blast
  }
  {
    fix spans
    assume "markdownToRichText env (preprocessMarkdown (removeHTML b)) = Inr spans"
    then show "parseBodyRichText env b = (Ok spans, [])"
      by (simp add: prod_eq_iff fst_parseBodyRichText snd_parseBodyRichText)
  }
qed

text \<open>The second heading of a body with two headings.\<close>

lemma clean_body_two_headings:
  "removeComments (removeHTML (Some body_two_headings)) =
     (js ''# Title'' @ [ch_nl] @ js ''Intro'' @ [ch_nl]) @ js ''##'' @ js '' '' @
     js ''Steps to do'' @ ([ch_nl] @ js ''run it'')"
  by (simp add: body_two_headings_def removeHTML_def trim_def isSpace_def startsWith_def js_def)

theorem heading_rewritten_witness:
  "preprocessMarkdown (removeHTML (Some body_two_headings)) =
     js ''**Title**'' @ [ch_nl] @ js ''Intro'' @ [ch_nl] @ js ''**Steps to do**'' @ [ch_nl] @
     js ''run it'' \<and>
   ch_hash \<notin> set (preprocessMarkdown (removeHTML (Some body_two_headings))) \<and>
   parseBodyRichText env_ok (Some body_two_headings) =
     (Ok [plain_span (js ''**Title**'' @ [ch_nl] @ js ''Intro'' @ [ch_nl] @
                      js ''**Steps to do**'' @ [ch_nl] @ js ''run it'')], [])"
proof -
  let ?pre = "js ''# Title'' @ [ch_nl] @ js ''Intro'' @ [ch_nl]"
  let ?post = "[ch_nl] @ js ''run it''"
  have pre: "?pre = [] \<or> isLineTerminator (last ?pre)" "\<not> markerOpen True ?pre"
    by (simp_all add: js_def isLineTerminator_def isSpace_def matchHeading_def)
  have hs: "js ''##'' \<noteq> []" "set (js ''##'') \<subseteq> {ch_hash}"
    by (simp_all add: js_def)
  have ws: "js '' '' \<noteq> []" "\<forall>c\<in>set (js '' ''). isSpace c"
    by (simp_all add: js_def isSpace_def)
  have t: "js ''Steps to do'' \<noteq> []" "\<not> isSpace (hd (js ''Steps to do''))"
    "\<forall>c\<in>set (js ''Steps to do''). \<not> isLineTerminator c"
    by (simp_all add: js_def isSpace_def isLineTerminator_def)
  have post: "?post = [] \<or> isLineTerminator (hd ?post)"
    by (simp add: isLineTerminator_def)
  note th = heading_rewritten [OF clean_body_two_headings pre hs ws t post, of env_ok]
  have before: "headingsToBold True ?pre = js ''**Title**'' @ [ch_nl] @ js ''Intro'' @ [ch_nl]"
    by (simp add: js_def matchHeading_def isLineTerminator_def isSpace_def)
  have behind: "headingsToBold False ?post = ?post"
    by (simp add: js_def matchHeading_def isLineTerminator_def)
  have nb: "ch_bang \<notin> set (removeComments (removeHTML (Some body_two_headings)))"
    unfolding clean_body_two_headings by (simp add: js_def)
  have nh: "ch_hash \<notin> set (headingsToBold True ?pre) \<union> set (js ''Steps to do'') \<union>
              set (headingsToBold False ?post)"
    unfolding before behind by (simp add: js_def)
  have out: "preprocessMarkdown (removeHTML (Some body_two_headings)) =
     js ''**Title**'' @ [ch_nl] @ js ''Intro'' @ [ch_nl] @ js ''**Steps to do**'' @ [ch_nl] @
     js ''run it''"
    using th [THEN conjunct2, THEN conjunct2, THEN conjunct1, THEN mp, OF nb,
              unfolded before behind]
    by (simp add: js_def)
  have "markdownToRichText env_ok (preprocessMarkdown (removeHTML (Some body_two_headings))) =
          Inr [plain_span (preprocessMarkdown (removeHTML (Some body_two_headings)))]"
    by (simp add: env_ok_def)
  with th have "parseBodyRichText env_ok (Some body_two_headings) =
                  (Ok [plain_span (preprocessMarkdown (removeHTML (Some body_two_headings)))], [])"
    by blast
  with out th [THEN conjunct2, THEN conjunct2, THEN conjunct2, THEN conjunct1, THEN mp, OF nh]
  show ?thesis
    by simp
qed

text \<open>
  Claim C7, as stated, fails: the heading \<^verbatim>\<open># Fix #12\<close>. The converter hands \<^verbatim>\<open>**Fix #12**\<close> to
  the structured parser, whose bold span holds the heading text with its \<^verbatim>\<open>#\<close>.
\<close>

theorem heading_counterexample:
  "preprocessMarkdown (removeHTML (Some (js ''# Fix #12''))) = js ''**Fix #12**'' \<and>
   parseBodyRichText env_strong (Some (js ''# Fix #12'')) = (Ok [bold_span (js ''Fix #12'')], []) \<and>
   bold (annotations (bold_span (js ''Fix #12''))) \<and>
   ch_hash \<in> set (content (bold_span (js ''Fix #12'')))"
proof -
  have p: "preprocessMarkdown (removeHTML (Some (js ''# Fix #12''))) = js ''**Fix #12**''"
    by (simp add: removeHTML_def trim_def isSpace_def preprocessMarkdown_def startsWith_def
        matchHeading_def isLineTerminator_def matchImage_def js_def)
  have "markdownToRichText env_strong (js ''**Fix #12**'') = Inr [bold_span (js ''Fix #12'')]"
    by (simp add: env_strong_def env_ok_def)
  then have "parseBodyRichText env_strong (Some (js ''# Fix #12'')) =
               (Ok [bold_span (js ''Fix #12'')], [])"
    by (simp add: prod_eq_iff fst_parseBodyRichText snd_parseBodyRichText p)
  with p show ?thesis
    by (simp add: bold_span_def plain_span_def plain_annotations_def js_def)
qed

text \<open>A marker without text takes the next line, heading or not, as its text; the image
  rewrite works on the heading text, and across the bold markers.\<close>

lemma empty_marker_takes_next_line:
  "markerOpen True (js ''#'' @ [ch_nl]) \<and>
   preprocessMarkdown (js ''#'' @ [ch_nl] @ js ''# x'') = js ''**# x**''"
  by (simp add: preprocessMarkdown_def startsWith_def matchHeading_def isLineTerminator_def
      isSpace_def matchImage_def js_def)

lemma image_in_heading_text:
  "preprocessMarkdown (js ''# See ![x](y)'') = js ''**See x (image)**''"
  by (simp add: preprocessMarkdown_def startsWith_def matchHeading_def isLineTerminator_def
      isSpace_def matchImage_def js_def)

lemma image_across_heading:
  "preprocessMarkdown (js ''![a](http://x'' @ [ch_nl] @ js ''# b) c'') = js ''a (image) c**''"
  by (simp add: preprocessMarkdown_def startsWith_def matchHeading_def isLineTerminator_def
      isSpace_def matchImage_def js_def)


end
